theory Spec2Isabelle
  imports Complex_Main "HOL-Library.Word" "HOL-Library.Log_Nat"
begin

section \<open>Python values used by ingest-car-data/main.py\<close>

subsection \<open>Text and bytes\<close>

text \<open>
  A Python \<open>str\<close> is a sequence of Unicode code points, a \<open>bytes\<close> object a sequence
  of octets. String literals of the source are written \<open>lit ''...''\<close>.
\<close>

type_synonym codepoint = nat
type_synonym pystr = "codepoint list"
type_synonym pybytes = "8 word list"

definition lit :: "string \<Rightarrow> pystr" where
  "lit s = map of_char s"

text \<open>\<open>s.startswith(p)\<close>\<close>

definition startswith :: "pystr \<Rightarrow> pystr \<Rightarrow> bool" where
  "startswith s p = (take (length p) s = p)"

text \<open>\<open>p in s\<close> for two strings: \<open>p\<close> occurs in \<open>s\<close> as a contiguous run.\<close>

fun is_substring :: "pystr \<Rightarrow> pystr \<Rightarrow> bool" where
  "is_substring p [] = (p = [])"
| "is_substring p (c # s) = (startswith (c # s) p \<or> is_substring p s)"

text \<open>
  \<open>s.split(sep, 1)\<close> for a one-character separator: the text before the first separator
  and the text after it, or the whole string alone when the separator does not occur.
\<close>

definition split_once :: "codepoint \<Rightarrow> pystr \<Rightarrow> pystr list" where
  "split_once sep s =
     (if sep \<in> set s
      then [takeWhile (\<lambda>c. c \<noteq> sep) s, tl (dropWhile (\<lambda>c. c \<noteq> sep) s)]
      else [s])"

text \<open>
  The characters \<open>str.strip()\<close> removes when called without an argument: the code points
  CPython classifies as whitespace.
\<close>

definition is_whitespace :: "codepoint \<Rightarrow> bool" where
  "is_whitespace c =
     ((0x09 \<le> c \<and> c \<le> 0x0D) \<or> (0x1C \<le> c \<and> c \<le> 0x20) \<or> c = 0x85 \<or> c = 0xA0
      \<or> c = 0x1680 \<or> (0x2000 \<le> c \<and> c \<le> 0x200A) \<or> c = 0x2028 \<or> c = 0x2029
      \<or> c = 0x202F \<or> c = 0x205F \<or> c = 0x3000)"

definition strip :: "pystr \<Rightarrow> pystr" where
  "strip s = rev (dropWhile is_whitespace (rev (dropWhile is_whitespace s)))"

text \<open>\<open>str(n)\<close> for a natural number, and \<open>str.zfill\<close>.\<close>

fun str_of_nat :: "nat \<Rightarrow> pystr" where
  "str_of_nat n = (if n < 10 then [48 + n] else str_of_nat (n div 10) @ [48 + n mod 10])"

declare str_of_nat.simps [simp del]

definition zfill :: "nat \<Rightarrow> pystr \<Rightarrow> pystr" where
  "zfill w s = replicate (w - length s) 48 @ s"

subsection \<open>Exceptions\<close>

text \<open>
  An exception carries the name of its class and its text (\<open>type(e).__name__\<close> and
  \<open>str(e)\<close>). \<open>derives_Exception\<close> tells whether the class derives from \<open>Exception\<close>:
  \<open>KeyboardInterrupt\<close>, \<open>SystemExit\<close> and \<open>GeneratorExit\<close> derive from
  \<open>BaseException\<close> only, and an \<open>except Exception\<close> clause does not catch them.
  The texts of the interpreter's own errors follow CPython 3.11; the text of
  \<open>UnicodeDecodeError\<close> is given without the offending byte and its position.
\<close>

datatype exn = Raised (derives_Exception: bool) (exn_type: pystr) (exn_text: pystr)

definition TypeError :: "pystr \<Rightarrow> exn" where
  "TypeError msg = Raised True (lit ''TypeError'') msg"

definition AttributeError :: "pystr \<Rightarrow> exn" where
  "AttributeError msg = Raised True (lit ''AttributeError'') msg"

definition KeyError :: "pystr \<Rightarrow> exn" where
  "KeyError key = Raised True (lit ''KeyError'') (lit [CHR 0x27] @ key @ lit [CHR 0x27])"

definition IndexError :: exn where
  "IndexError = Raised True (lit ''IndexError'') (lit ''list index out of range'')"

definition OverflowError :: exn where
  "OverflowError = Raised True (lit ''OverflowError'') (lit ''int too large to convert to float'')"

definition UnicodeDecodeError :: exn where
  "UnicodeDecodeError =
     Raised True (lit ''UnicodeDecodeError'') (lit [CHR 0x27] @ lit ''utf-8'' @ lit [CHR 0x27] @ lit '' codec can't decode byte'')"

text \<open>Sequencing of computations that may raise: the first error ends the computation.\<close>

definition bind_e :: "exn + 'a \<Rightarrow> ('a \<Rightarrow> exn + 'b) \<Rightarrow> exn + 'b" where
  "bind_e m f = (case m of Inl e \<Rightarrow> Inl e | Inr x \<Rightarrow> f x)"

subsection \<open>UTF-8 decoding\<close>

text \<open>
  \<open>bytes.decode("UTF-8")\<close> in strict mode: well-formed sequences only (no overlong
  forms, no surrogates, nothing above U+10FFFF); anything else raises
  \<open>UnicodeDecodeError\<close>.
\<close>

definition is_cont :: "8 word \<Rightarrow> bool" where
  "is_cont b = (0x80 \<le> b \<and> b \<le> 0xBF)"

definition cont_bits :: "8 word \<Rightarrow> nat" where
  "cont_bits b = unat b mod 64"

definition cons_e :: "codepoint \<Rightarrow> exn + pystr \<Rightarrow> exn + pystr" where
  "cons_e c r = bind_e r (\<lambda>s. Inr (c # s))"

fun utf8_decode :: "pybytes \<Rightarrow> exn + pystr" where
  "utf8_decode [] = Inr []"
| "utf8_decode (b0 # bs) =
     (if b0 < 0x80 then cons_e (unat b0) (utf8_decode bs)
      else if 0xC2 \<le> b0 \<and> b0 \<le> 0xDF then
        (case bs of
           b1 # r \<Rightarrow>
             if is_cont b1
             then cons_e ((unat b0 mod 32) * 64 + cont_bits b1) (utf8_decode r)
             else Inl UnicodeDecodeError
         | _ \<Rightarrow> Inl UnicodeDecodeError)
      else if 0xE0 \<le> b0 \<and> b0 \<le> 0xEF then
        (case bs of
           b1 # b2 # r \<Rightarrow>
             if (if b0 = 0xE0 then 0xA0 else 0x80) \<le> b1 \<and> b1 \<le> (if b0 = 0xED then 0x9F else 0xBF)
                \<and> is_cont b2
             then cons_e ((unat b0 mod 16) * 4096 + cont_bits b1 * 64 + cont_bits b2) (utf8_decode r)
             else Inl UnicodeDecodeError
         | _ \<Rightarrow> Inl UnicodeDecodeError)
      else if 0xF0 \<le> b0 \<and> b0 \<le> 0xF4 then
        (case bs of
           b1 # b2 # b3 # r \<Rightarrow>
             if (if b0 = 0xF0 then 0x90 else 0x80) \<le> b1 \<and> b1 \<le> (if b0 = 0xF4 then 0x8F else 0xBF)
                \<and> is_cont b2 \<and> is_cont b3
             then cons_e ((unat b0 mod 8) * 262144 + cont_bits b1 * 4096 + cont_bits b2 * 64 + cont_bits b3)
                    (utf8_decode r)
             else Inl UnicodeDecodeError
         | _ \<Rightarrow> Inl UnicodeDecodeError)
      else Inl UnicodeDecodeError)"

subsection \<open>Floats\<close>

text \<open>
  A Python \<open>float\<close> is an IEEE 754 binary64 number: a finite value (a rational with a
  53-bit significand), an infinity or a NaN. \<open>round_double\<close> rounds a rational to the
  nearest such number, ties to even; the sign of a zero is not modelled.
\<close>

datatype pyfloat = Finite rat | PosInf | NegInf | NaN

definition pow2 :: "int \<Rightarrow> rat" where
  "pow2 k = (if 0 \<le> k then 2 ^ nat k else 1 / 2 ^ nat (- k))"

definition floor_log2 :: "rat \<Rightarrow> int" where
  "floor_log2 x =
     (let (p, q) = quotient_of \<bar>x\<bar>; k = bitlen p - bitlen q
      in if pow2 k \<le> \<bar>x\<bar> then k else k - 1)"

definition round_half_even :: "rat \<Rightarrow> int" where
  "round_half_even x =
     (let f = \<lfloor>x\<rfloor>; r = x - of_int f
      in if r < 1 / 2 then f else if 1 / 2 < r then f + 1 else if even f then f else f + 1)"

definition round_double :: "rat \<Rightarrow> pyfloat" where
  "round_double x =
     (if x = 0 then Finite 0
      else let e = max (floor_log2 x) (- 1022);
               q = pow2 (e - 52);
               r = of_int (round_half_even (x / q)) * q
           in if pow2 1024 \<le> \<bar>r\<bar> then (if 0 < x then PosInf else NegInf) else Finite r)"

text \<open>\<open>a - b\<close> on two floats.\<close>

fun float_sub :: "pyfloat \<Rightarrow> pyfloat \<Rightarrow> pyfloat" where
  "float_sub (Finite a) (Finite b) = round_double (a - b)"
| "float_sub NaN _ = NaN"
| "float_sub _ NaN = NaN"
| "float_sub PosInf PosInf = NaN"
| "float_sub NegInf NegInf = NaN"
| "float_sub PosInf _ = PosInf"
| "float_sub NegInf _ = NegInf"
| "float_sub (Finite a) PosInf = NegInf"
| "float_sub (Finite a) NegInf = PosInf"

text \<open>The float a decimal literal of the source denotes.\<close>

definition float_literal :: "rat \<Rightarrow> pyfloat" where
  "float_literal x = round_double x"

subsection \<open>Objects: JSON documents, attribute values, rows\<close>

text \<open>
  The values \<open>json.load\<close> returns and the values a row holds. A \<open>dict\<close> keeps its
  entries in insertion order, with string keys.
\<close>

datatype pyval =
    PNone
  | PBool bool
  | PInt int
  | PFloat pyfloat
  | PStr pystr
  | PList "pyval list"
  | PDict "(pystr \<times> pyval) list"

definition type_name_of :: "pyval \<Rightarrow> pystr" where
  "type_name_of v =
     (case v of PNone \<Rightarrow> lit ''NoneType'' | PBool _ \<Rightarrow> lit ''bool'' | PInt _ \<Rightarrow> lit ''int''
      | PFloat _ \<Rightarrow> lit ''float'' | PStr _ \<Rightarrow> lit ''str'' | PList _ \<Rightarrow> lit ''list''
      | PDict _ \<Rightarrow> lit ''dict'')"

definition quoted :: "pystr \<Rightarrow> pystr" where
  "quoted s = lit [CHR 0x27] @ s @ lit [CHR 0x27]"

text \<open>\<open>d[key] = v\<close> on a dict: an existing key keeps its place, a new key goes last.\<close>

primrec dict_set :: "(pystr \<times> pyval) list \<Rightarrow> pystr \<Rightarrow> pyval \<Rightarrow> (pystr \<times> pyval) list" where
  "dict_set [] key v = [(key, v)]"
| "dict_set (p # ps) key v = (if fst p = key then (key, v) # ps else p # dict_set ps key v)"

text \<open>\<open>key in x\<close> for a string \<open>key\<close>.\<close>

definition py_contains :: "pystr \<Rightarrow> pyval \<Rightarrow> exn + bool" where
  "py_contains key x =
     (case x of
        PDict kvs \<Rightarrow> Inr (key \<in> set (map fst kvs))
      | PList xs \<Rightarrow> Inr (PStr key \<in> set xs)
      | PStr s \<Rightarrow> Inr (is_substring key s)
      | _ \<Rightarrow> Inl (TypeError (lit ''argument of type '' @ quoted (type_name_of x) @ lit '' is not iterable'')))"

text \<open>\<open>x[key]\<close> for a string \<open>key\<close>.\<close>

definition py_getitem :: "pyval \<Rightarrow> pystr \<Rightarrow> exn + pyval" where
  "py_getitem x key =
     (case x of
        PDict kvs \<Rightarrow> (case map_of kvs key of Some v \<Rightarrow> Inr v | None \<Rightarrow> Inl (KeyError key))
      | PList _ \<Rightarrow> Inl (TypeError (lit ''list indices must be integers or slices, not str''))
      | PStr _ \<Rightarrow> Inl (TypeError (lit ''string indices must be integers, not '' @ quoted (lit ''str'')))
      | _ \<Rightarrow> Inl (TypeError (quoted (type_name_of x) @ lit '' object is not subscriptable'')))"

text \<open>The elements \<open>for c in x\<close> visits.\<close>

definition py_iter :: "pyval \<Rightarrow> exn + pyval list" where
  "py_iter x =
     (case x of
        PList xs \<Rightarrow> Inr xs
      | PDict kvs \<Rightarrow> Inr (map (\<lambda>p. PStr (fst p)) kvs)
      | PStr s \<Rightarrow> Inr (map (\<lambda>c. PStr [c]) s)
      | _ \<Rightarrow> Inl (TypeError (quoted (type_name_of x) @ lit '' object is not iterable'')))"

text \<open>\<open>x.items()\<close>\<close>

definition py_items :: "pyval \<Rightarrow> exn + (pystr \<times> pyval) list" where
  "py_items x =
     (case x of
        PDict kvs \<Rightarrow> Inr kvs
      | _ \<Rightarrow> Inl (AttributeError (quoted (type_name_of x) @ lit '' object has no attribute '' @ quoted (lit ''items''))))"

text \<open>\<open>xs[i]\<close> on a list, for an index that is not negative.\<close>

definition py_index :: "'a list \<Rightarrow> nat \<Rightarrow> exn + 'a" where
  "py_index xs i = (if i < length xs then Inr (xs ! i) else Inl IndexError)"

text \<open>
  The effect on an enclosing dict of a mutation made in place to the object stored under
  \<open>key\<close>: the dict holds the mutated object at the same key.
\<close>

definition py_setitem :: "pyval \<Rightarrow> pystr \<Rightarrow> pyval \<Rightarrow> pyval" where
  "py_setitem x key v = (case x of PDict kvs \<Rightarrow> PDict (dict_set kvs key v) | _ \<Rightarrow> x)"

section \<open>The collaborators and what a run does to them\<close>

text \<open>
  The job talks to four collaborators: the file system, the secret store, the
  connectivity client and the analytical store. A run is described by the calls it makes
  and the lines it prints, in order, and by how it ends: with a value or with an
  exception raised to the caller.
\<close>

datatype event =
    LoadJson pystr
  | AccessSecretVersion pystr
  | Print pystr
  | PrintJson pyval
  | Construct pyval
  | FetchAll
  | GetGarage
  | ListVehicles
  | Now
  | InsertRowsJson pystr "pyval list"

type_synonym 'a result = "event list \<times> (exn + 'a)"

definition ret :: "'a \<Rightarrow> 'a result" where
  "ret x = ([], Inr x)"

definition pure_r :: "exn + 'a \<Rightarrow> 'a result" where
  "pure_r r = ([], r)"

text \<open>A call to a collaborator, or a printed line: the event, and the call's outcome.\<close>

definition call :: "event \<Rightarrow> exn + 'a \<Rightarrow> 'a result" where
  "call ev outcome = ([ev], outcome)"

definition bind_r :: "'a result \<Rightarrow> ('a \<Rightarrow> 'b result) \<Rightarrow> 'b result" where
  "bind_r m f =
     (case m of
        (es, Inl e) \<Rightarrow> (es, Inl e)
      | (es, Inr x) \<Rightarrow> (case f x of (es', r) \<Rightarrow> (es @ es', r)))"

subsection \<open>Vehicle snapshots\<close>

text \<open>
  The objects of the connectivity library that \<open>main\<close> reads. A sub-object that is
  missing (or \<open>None\<close>) is \<open>None\<close> here; reading through it raises \<open>AttributeError\<close>.
  An attribute's \<open>.value\<close> is any Python value. An enum attribute's \<open>.value\<close> is
  \<open>None\<close> or a member of an enumeration, whose own \<open>.value\<close> is what the row stores.
\<close>

datatype attribute = Attribute (attr_value: pyval)

datatype enum_attribute = EnumAttribute (enum_member: "pyval option")

record electric_drive_obj =
  level :: "attribute option"

record charging_obj =
  charging_power :: "attribute option"
  charging_type :: "enum_attribute option"
  charging_state :: "enum_attribute option"

record position_obj =
  latitude :: "attribute option"
  longitude :: "attribute option"

record vehicle =
  get_electric_drive :: "electric_drive_obj option"
  vin :: "attribute option"
  odometer :: "attribute option"
  charging :: "charging_obj option"
  connection_state :: "enum_attribute option"
  outside_temperature :: "attribute option"
  position :: "position_obj option"
  state :: "enum_attribute option"

datatype garage = Garage (list_vehicles: "exn + vehicle list")

datatype client = Client (fetch_all: "exn + unit") (get_garage: "exn + garage option")

text \<open>\<open>datetime.datetime.now(datetime.timezone.utc)\<close>: an aware UTC time.\<close>

record datetime =
  dt_year :: nat
  dt_month :: nat
  dt_day :: nat
  dt_hour :: nat
  dt_minute :: nat
  dt_second :: nat
  dt_microsecond :: nat

text \<open>
  The environment of one run: the \<open>GCP_PROJECT\<close> variable (\<open>None\<close> when unset), what
  \<open>open\<close> and \<open>json.load\<close> give for a path, what the secret store answers for a
  secret version name, what constructing the connectivity client gives, the clock, and
  what the analytical store answers to \<open>insert_rows_json\<close>.
\<close>

record env =
  PROJECT_ID :: "pystr option"
  load_json :: "pystr \<Rightarrow> exn + pyval"
  access_secret_version :: "pystr \<Rightarrow> exn + pybytes"
  CarConnectivity :: "pyval \<Rightarrow> exn + client"
  utc_now :: datetime
  insert_rows_json :: "pystr \<Rightarrow> pyval list \<Rightarrow> exn + pyval list"

definition BIGQUERY_DATASET :: pystr where
  "BIGQUERY_DATASET = lit ''car_data''"

definition BIGQUERY_TABLE :: pystr where
  "BIGQUERY_TABLE = lit ''vehicle_status''"

text \<open>\<open>f"{PROJECT_ID}"\<close>: an unset variable is formatted as \<open>None\<close>.\<close>

definition format_project :: "pystr option \<Rightarrow> pystr" where
  "format_project p = (case p of None \<Rightarrow> lit ''None'' | Some s \<Rightarrow> s)"

section \<open>The config resolver\<close>

text \<open>
  \<open>_get_secret\<close>: the name of the latest version of the secret, the call to the secret
  store, and the payload decoded and stripped.
\<close>

definition secret_version_name :: "env \<Rightarrow> pystr \<Rightarrow> pystr" where
  "secret_version_name env secret_id =
     lit ''projects/'' @ format_project (PROJECT_ID env) @ lit ''/secrets/'' @ secret_id
       @ lit ''/versions/latest''"

definition get_secret :: "env \<Rightarrow> pystr \<Rightarrow> pystr result" where
  "get_secret env secret_id =
     (let name = secret_version_name env secret_id in
      bind_r (call (AccessSecretVersion name) (access_secret_version env name)) (\<lambda>data.
      pure_r (bind_e (utf8_decode data) (\<lambda>s. Inr (strip s)))))"

text \<open>
  The loop over \<open>connector['config'].items()\<close>. \<open>d\<close> is the dict as the assignments made
  so far have left it.
\<close>

fun resolve_items :: "env \<Rightarrow> (pystr \<times> pyval) list \<Rightarrow> (pystr \<times> pyval) list \<Rightarrow> (pystr \<times> pyval) list result" where
  "resolve_items env [] d = ret d"
| "resolve_items env ((key, val) # items) d =
     (case val of
        PStr s \<Rightarrow>
          if startswith s (lit ''SECRET:'') then
            bind_r (pure_r (py_index (split_once 58 s) 1)) (\<lambda>secret_id.
            bind_r (get_secret env secret_id) (\<lambda>retrieved_secret.
            resolve_items env items (dict_set d key (PStr retrieved_secret))))
          else resolve_items env items d
      | _ \<Rightarrow> resolve_items env items d)"

text \<open>The body of the loop over the connectors, for one connector.\<close>

definition resolve_connector :: "env \<Rightarrow> pyval \<Rightarrow> pyval result" where
  "resolve_connector env connector =
     bind_r (pure_r (py_contains (lit ''config'') connector)) (\<lambda>has_config.
     if has_config then
       bind_r (pure_r (py_getitem connector (lit ''config''))) (\<lambda>config.
       bind_r (pure_r (py_items config)) (\<lambda>items.
       bind_r (resolve_items env items items) (\<lambda>d.
       ret (py_setitem connector (lit ''config'') (PDict d)))))
     else ret connector)"

fun resolve_connectors :: "env \<Rightarrow> pyval list \<Rightarrow> pyval list result" where
  "resolve_connectors env [] = ret []"
| "resolve_connectors env (connector # rest) =
     bind_r (resolve_connector env connector) (\<lambda>connector'.
     bind_r (resolve_connectors env rest) (\<lambda>rest'.
     ret (connector' # rest')))"

text \<open>
  \<open>_build_config_with_secrets\<close>. The document is mutated in place; the value returned
  is the loaded document with each connector replaced by what the loop left of it. When
  the connectors are not a list, the loop visits strings (the keys of a dict, the
  characters of a string), which it cannot change.
\<close>

definition build_config_with_secrets :: "env \<Rightarrow> pystr \<Rightarrow> pyval result" where
  "build_config_with_secrets env config_path =
     bind_r (call (LoadJson config_path) (load_json env config_path)) (\<lambda>config.
     bind_r (pure_r (py_contains (lit ''carConnectivity'') config)) (\<lambda>has_cc.
     if \<not> has_cc then ret config else
     bind_r (pure_r (py_getitem config (lit ''carConnectivity''))) (\<lambda>cc.
     bind_r (pure_r (py_contains (lit ''connectors'') cc)) (\<lambda>has_connectors.
     if \<not> has_connectors then ret config else
     bind_r (pure_r (py_getitem cc (lit ''connectors''))) (\<lambda>connectors.
     bind_r (pure_r (py_iter connectors)) (\<lambda>cs.
     bind_r (resolve_connectors env cs) (\<lambda>cs'.
     ret (case connectors of
            PList _ \<Rightarrow>
              py_setitem config (lit ''carConnectivity'')
                (py_setitem cc (lit ''connectors'') (PList cs'))
          | _ \<Rightarrow> config))))))))"

section \<open>The ingestion pipeline\<close>

subsection \<open>Building a row\<close>

text \<open>\<open>ingestion_time.isoformat()\<close> for an aware UTC time.\<close>

definition isoformat :: "datetime \<Rightarrow> pystr" where
  "isoformat t =
     zfill 4 (str_of_nat (dt_year t)) @ lit ''-'' @ zfill 2 (str_of_nat (dt_month t)) @ lit ''-''
       @ zfill 2 (str_of_nat (dt_day t)) @ lit ''T'' @ zfill 2 (str_of_nat (dt_hour t)) @ lit '':''
       @ zfill 2 (str_of_nat (dt_minute t)) @ lit '':'' @ zfill 2 (str_of_nat (dt_second t))
       @ (if dt_microsecond t = 0 then [] else lit ''.'' @ zfill 6 (str_of_nat (dt_microsecond t)))
       @ lit ''+00:00''"

text \<open>Reading attribute \<open>name\<close> of a sub-object that may be missing.\<close>

definition deref :: "string \<Rightarrow> 'a option \<Rightarrow> exn + 'a" where
  "deref name obj =
     (case obj of
        Some x \<Rightarrow> Inr x
      | None \<Rightarrow> Inl (AttributeError (quoted (lit ''NoneType'') @ lit '' object has no attribute ''
                  @ quoted (lit name))))"

text \<open>\<open>obj.value\<close> for an attribute, \<open>obj.value.value\<close> for an enum attribute.\<close>

definition attr_of :: "attribute option \<Rightarrow> exn + pyval" where
  "attr_of obj = bind_e (deref ''value'' obj) (\<lambda>a. Inr (attr_value a))"

definition enum_of :: "enum_attribute option \<Rightarrow> exn + pyval" where
  "enum_of obj = bind_e (deref ''value'' obj) (\<lambda>a. deref ''value'' (enum_member a))"

text \<open>\<open>float(i)\<close> for an int, and \<open>x - c\<close> for a float \<open>c\<close>.\<close>

definition float_of_int :: "int \<Rightarrow> exn + pyfloat" where
  "float_of_int i = (case round_double (of_int i) of Finite r \<Rightarrow> Inr (Finite r) | _ \<Rightarrow> Inl OverflowError)"

definition py_sub_float :: "pyval \<Rightarrow> pyfloat \<Rightarrow> exn + pyval" where
  "py_sub_float x c =
     (case x of
        PFloat a \<Rightarrow> Inr (PFloat (float_sub a c))
      | PInt i \<Rightarrow> bind_e (float_of_int i) (\<lambda>a. Inr (PFloat (float_sub a c)))
      | PBool b \<Rightarrow> Inr (PFloat (float_sub (Finite (if b then 1 else 0)) c))
      | _ \<Rightarrow> Inl (TypeError (lit ''unsupported operand type(s) for -: '' @ quoted (type_name_of x)
                 @ lit '' and '' @ quoted (lit ''float''))))"

text \<open>
  Lines 89 to 107: the row of one vehicle. The entries are evaluated in the order of the
  source, so the first access that fails is the one that raises.
\<close>

definition build_row :: "datetime \<Rightarrow> vehicle \<Rightarrow> exn + pyval" where
  "build_row ingestion_time v =
     bind_e (case get_electric_drive v of
               Some edrive \<Rightarrow> attr_of (level edrive)
             | None \<Rightarrow> Inr PNone) (\<lambda>soc.
     bind_e (attr_of (vin v)) (\<lambda>vehicle_id.
     bind_e (attr_of (odometer v)) (\<lambda>mileage.
     bind_e (bind_e (deref ''power'' (charging v)) (\<lambda>c. attr_of (charging_power c))) (\<lambda>power.
     bind_e (bind_e (deref ''type'' (charging v)) (\<lambda>c. enum_of (charging_type c))) (\<lambda>ctype.
     bind_e (bind_e (deref ''state'' (charging v)) (\<lambda>c. enum_of (charging_state c))) (\<lambda>is_charging.
     bind_e (enum_of (connection_state v)) (\<lambda>is_online.
     bind_e (bind_e (attr_of (outside_temperature v))
               (\<lambda>t. py_sub_float t (float_literal (27315 / 100)))) (\<lambda>external_temperature.
     bind_e (case position v of
               Some p \<Rightarrow> attr_of (latitude p)
             | None \<Rightarrow> Inr PNone) (\<lambda>lat.
     bind_e (case position v of
               Some p \<Rightarrow> attr_of (longitude p)
             | None \<Rightarrow> Inr PNone) (\<lambda>lon.
     bind_e (enum_of (state v)) (\<lambda>st.
     Inr (PDict
       [(lit ''ingestion_timestamp'', PStr (isoformat ingestion_time)),
        (lit ''vehicle_id'', vehicle_id),
        (lit ''mileage'', mileage),
        (lit ''soc'', soc),
        (lit ''charging_power'', power),
        (lit ''charging_type'', ctype),
        (lit ''is_charging'', is_charging),
        (lit ''is_online'', is_online),
        (lit ''external_temperature'', external_temperature),
        (lit ''latitude'', lat),
        (lit ''longitude'', lon),
        (lit ''state'', st)]))))))))))))"

text \<open>
  The loop of lines 88 to 108; \<open>rows\<close> is \<open>rows_to_insert\<close> so far. The guard
  \<open>if vehicle:\<close> of line 93 holds for every vehicle object (line 89 has already called a
  method of it), so every vehicle appends its row.
\<close>

fun build_rows :: "datetime \<Rightarrow> vehicle list \<Rightarrow> pyval list \<Rightarrow> exn + pyval list" where
  "build_rows ingestion_time [] rows = Inr rows"
| "build_rows ingestion_time (v # vs) rows =
     bind_e (build_row ingestion_time v) (\<lambda>row. build_rows ingestion_time vs (rows @ [row]))"

subsection \<open>The batch write\<close>

text \<open>
  \<open>_insert_into_bigquery\<close>: nothing is sent for an empty batch; otherwise the batch goes
  to the store in one call, and the list of row errors it returns decides what is
  printed.
\<close>

definition table_id :: "env \<Rightarrow> pystr" where
  "table_id env =
     format_project (PROJECT_ID env) @ lit ''.'' @ BIGQUERY_DATASET @ lit ''.'' @ BIGQUERY_TABLE"

definition insert_error_record :: "pyval list \<Rightarrow> pyval" where
  "insert_error_record errors =
     PDict [(lit ''severity'', PStr (lit ''ERROR'')),
            (lit ''message'', PStr (lit ''BigQuery insert errors'')),
            (lit ''errors'', PList errors)]"

definition insert_into_bigquery :: "env \<Rightarrow> pyval list \<Rightarrow> unit result" where
  "insert_into_bigquery env rows =
     (if rows = [] then call (Print (lit ''No rows to insert.'')) (Inr ())
      else
        bind_r (call (InsertRowsJson (table_id env) rows) (insert_rows_json env (table_id env) rows))
          (\<lambda>errors.
        if errors = [] then
          call (Print (lit ''Successfully loaded '' @ str_of_nat (length rows) @ lit '' rows into ''
                  @ table_id env)) (Inr ())
        else call (PrintJson (insert_error_record errors)) (Inr ())))"

subsection \<open>The entry point\<close>

text \<open>
  The body of the \<open>try\<close> block of \<open>main\<close>. It ends with an exception, with \<open>None\<close>
  (one of the two early returns), or with the vehicle list.
\<close>

definition main_try :: "env \<Rightarrow> vehicle list option result" where
  "main_try env =
     bind_r (build_config_with_secrets env (lit ''config.json'')) (\<lambda>config.
     bind_r (call (Print (lit ''Initializing CarConnectivity with dynamic config...'')) (Inr ())) (\<lambda>_.
     bind_r (call (Construct config) (CarConnectivity env config)) (\<lambda>cc.
     bind_r (call FetchAll (fetch_all cc)) (\<lambda>_.
     bind_r (call GetGarage (get_garage cc)) (\<lambda>garage.
     case garage of
       None \<Rightarrow>
         bind_r (call (Print (lit ''Successfully connected, but no garage object was returned.'')) (Inr ()))
           (\<lambda>_. ret None)
     | Some g \<Rightarrow>
         bind_r (call ListVehicles (list_vehicles g)) (\<lambda>vehicles.
         if vehicles = [] then
           bind_r (call (Print (lit ''Garage retrieved, but it contains no vehicles.'')) (Inr ()))
             (\<lambda>_. ret None)
         else
           bind_r (call (Print (lit ''Found '' @ str_of_nat (length vehicles)
                     @ lit '' vehicle VIN(s). Fetching full data for each.'')) (Inr ()))
             (\<lambda>_. ret (Some vehicles))))))))"

definition init_error_record :: "exn \<Rightarrow> pyval" where
  "init_error_record e =
     PDict [(lit ''severity'', PStr (lit ''ERROR'')),
            (lit ''message'', PStr (lit ''Failed during initialization or data fetch'')),
            (lit ''exception_type'', PStr (exn_type e)),
            (lit ''error'', PStr (exn_text e))]"

text \<open>
  \<open>main(event, context)\<close>; the trigger's payload and context are received and never
  read. The handler is \<open>except Exception\<close>: it prints the record
  and raises the exception again. An exception that does not derive from \<open>Exception\<close>
  passes it by.
\<close>

definition main :: "pyval \<Rightarrow> pyval \<Rightarrow> env \<Rightarrow> unit result" where
  "main event context env =
     (case main_try env of
        (es, Inl e) \<Rightarrow>
          if derives_Exception e then (es @ [PrintJson (init_error_record e)], Inl e)
          else (es, Inl e)
      | (es, Inr None) \<Rightarrow> (es, Inr ())
      | (es, Inr (Some vehicles)) \<Rightarrow>
          bind_r (es, Inr ()) (\<lambda>_.
          bind_r (call Now (Inr (utc_now env))) (\<lambda>ingestion_time.
          bind_r (pure_r (build_rows ingestion_time vehicles [])) (\<lambda>rows_to_insert.
          insert_into_bigquery env rows_to_insert))))"

section \<open>Vocabulary of the specification\<close>

text \<open>The entry \<open>name\<close> of a row.\<close>

definition row_field :: "string \<Rightarrow> pyval \<Rightarrow> pyval option" where
  "row_field name row = (case row of PDict kvs \<Rightarrow> map_of kvs (lit name) | _ \<Rightarrow> None)"

text \<open>
  What the row of a vehicle requires: every sub-object the code reads without a guard,
  an enumeration member behind each enum attribute, and an outside temperature that is a
  number. The electric drive and the position may be missing; when one is there, the
  attributes read from it must be there too.
\<close>

definition has_member :: "enum_attribute option \<Rightarrow> bool" where
  "has_member obj = (case obj of Some a \<Rightarrow> enum_member a \<noteq> None | None \<Rightarrow> False)"

definition is_number :: "pyval \<Rightarrow> bool" where
  "is_number x =
     (case x of
        PFloat _ \<Rightarrow> True
      | PBool _ \<Rightarrow> True
      | PInt i \<Rightarrow> (case float_of_int i of Inr _ \<Rightarrow> True | Inl _ \<Rightarrow> False)
      | _ \<Rightarrow> False)"

definition required_present :: "vehicle \<Rightarrow> bool" where
  "required_present v =
     ((case get_electric_drive v of Some e \<Rightarrow> level e \<noteq> None | None \<Rightarrow> True)
      \<and> vin v \<noteq> None
      \<and> odometer v \<noteq> None
      \<and> (case charging v of
            Some c \<Rightarrow> charging_power c \<noteq> None \<and> has_member (charging_type c)
                        \<and> has_member (charging_state c)
          | None \<Rightarrow> False)
      \<and> has_member (connection_state v)
      \<and> (case outside_temperature v of Some a \<Rightarrow> is_number (attr_value a) | None \<Rightarrow> False)
      \<and> (case position v of Some p \<Rightarrow> latitude p \<noteq> None \<and> longitude p \<noteq> None | None \<Rightarrow> True)
      \<and> has_member (state v))"

text \<open>
  The connector entries of a configuration document of the expected shape, and the
  settings mapping of a connector entry.
\<close>

definition connectors_of :: "pyval \<Rightarrow> pyval list" where
  "connectors_of config =
     (case config of
        PDict doc \<Rightarrow>
          (case map_of doc (lit ''carConnectivity'') of
             Some (PDict cc) \<Rightarrow>
               (case map_of cc (lit ''connectors'') of Some (PList cs) \<Rightarrow> cs | _ \<Rightarrow> [])
           | _ \<Rightarrow> [])
      | _ \<Rightarrow> [])"

definition settings_of :: "pyval \<Rightarrow> (pystr \<times> pyval) list option" where
  "settings_of connector =
     (case connector of
        PDict c \<Rightarrow> (case map_of c (lit ''config'') of Some (PDict kvs) \<Rightarrow> Some kvs | _ \<Rightarrow> None)
      | _ \<Rightarrow> None)"

definition settings_items :: "pyval \<Rightarrow> (pystr \<times> pyval) list" where
  "settings_items connector = (case settings_of connector of Some kvs \<Rightarrow> kvs | None \<Rightarrow> [])"

text \<open>A secret reference: a string that begins with \<open>SECRET:\<close>.\<close>

definition is_secret_ref :: "pyval \<Rightarrow> bool" where
  "is_secret_ref v = (case v of PStr s \<Rightarrow> startswith s (lit ''SECRET:'') | _ \<Rightarrow> False)"

text \<open>
  The secret identifiers referenced by the immediate string values of a settings
  mapping, in the order of the mapping.
\<close>

fun secret_ids :: "(pystr \<times> pyval) list \<Rightarrow> pystr list" where
  "secret_ids [] = []"
| "secret_ids ((key, val) # items) =
     (if is_secret_ref val then (case val of PStr s \<Rightarrow> [drop 7 s] | _ \<Rightarrow> []) else []) @ secret_ids items"

text \<open>What \<open>_get_secret\<close> returns or raises for a secret identifier.\<close>

definition secret_text :: "env \<Rightarrow> pystr \<Rightarrow> exn + pystr" where
  "secret_text env secret_id =
     bind_e (access_secret_version env (secret_version_name env secret_id))
       (\<lambda>data. bind_e (utf8_decode data) (\<lambda>s. Inr (strip s)))"

text \<open>Kinds of events.\<close>

definition is_insert :: "event \<Rightarrow> bool" where
  "is_insert ev = (case ev of InsertRowsJson _ _ \<Rightarrow> True | _ \<Rightarrow> False)"

definition is_print_json :: "event \<Rightarrow> bool" where
  "is_print_json ev = (case ev of PrintJson _ \<Rightarrow> True | _ \<Rightarrow> False)"

definition is_construct :: "event \<Rightarrow> bool" where
  "is_construct ev = (case ev of Construct _ \<Rightarrow> True | _ \<Rightarrow> False)"

definition is_secret_call :: "event \<Rightarrow> bool" where
  "is_secret_call ev = (case ev of AccessSecretVersion _ \<Rightarrow> True | _ \<Rightarrow> False)"

section \<open>Example runs\<close>

text \<open>
  A configuration document with one connector, whose password is a secret reference and
  whose other settings are literals; one of them is a list that holds a string of the
  secret-reference form.
\<close>

definition example_config :: pyval where
  "example_config =
     PDict [(lit ''carConnectivity'',
       PDict [(lit ''log_level'', PStr (lit ''info'')),
              (lit ''connectors'',
         PList [PDict [(lit ''type'', PStr (lit ''volkswagen'')),
                       (lit ''config'',
                  PDict [(lit ''username'', PStr (lit ''driver@example.com'')),
                         (lit ''password'', PStr (lit ''SECRET:vw-password'')),
                         (lit ''interval'', PInt 300),
                         (lit ''tags'', PList [PStr (lit ''SECRET:unused'')])])]])])]"

definition ascii :: "string \<Rightarrow> pybytes" where
  "ascii s = map of_char s"

text \<open>An electric car at 300.0 K with a known position.\<close>

definition enum_attr :: "string \<Rightarrow> enum_attribute option" where
  "enum_attr s = Some (EnumAttribute (Some (PStr (lit s))))"

definition electric_vehicle :: vehicle where
  "electric_vehicle =
     \<lparr>get_electric_drive = Some \<lparr>level = Some (Attribute (PFloat (Finite 80)))\<rparr>,
      vin = Some (Attribute (PStr (lit ''WVWZZZE1ZMP000001''))),
      odometer = Some (Attribute (PInt 12345)),
      charging = Some \<lparr>charging_power = Some (Attribute (PFloat (Finite 11))),
                       charging_type = enum_attr ''ac'',
                       charging_state = enum_attr ''charging''\<rparr>,
      connection_state = enum_attr ''online'',
      outside_temperature = Some (Attribute (PFloat (Finite 300))),
      position = Some \<lparr>latitude = Some (Attribute (PFloat (Finite (105 / 2)))),
                       longitude = Some (Attribute (PFloat (Finite (53 / 4))))\<rparr>,
      state = enum_attr ''parked''\<rparr>"

text \<open>A car with neither an electric drive nor a position.\<close>

definition plain_vehicle :: vehicle where
  "plain_vehicle =
     electric_vehicle\<lparr>get_electric_drive := None, position := None,
       vin := Some (Attribute (PStr (lit ''WVWZZZ1KZAW000002'')))\<rparr>"

text \<open>A car whose odometer is missing.\<close>

definition broken_vehicle :: vehicle where
  "broken_vehicle = electric_vehicle\<lparr>odometer := None\<rparr>"

definition example_time :: datetime where
  "example_time =
     \<lparr>dt_year = 2024, dt_month = 5, dt_day = 17, dt_hour = 6, dt_minute = 30, dt_second = 0,
      dt_microsecond = 0\<rparr>"

definition not_found :: exn where
  "not_found = Raised True (lit ''NotFound'') (lit ''404 Secret not found'')"

definition example_client :: "vehicle list \<Rightarrow> client" where
  "example_client vehicles = Client (Inr ()) (Inr (Some (Garage (Inr vehicles))))"

text \<open>
  A run in which the one secret exists, the garage holds the two good cars and the store
  accepts every row.
\<close>

definition example_env :: env where
  "example_env =
     \<lparr>PROJECT_ID = Some (lit ''demo''),
      load_json = (\<lambda>path. if path = lit ''config.json'' then Inr example_config
                           else Inl (Raised True (lit ''FileNotFoundError'') path)),
      access_secret_version =
        (\<lambda>name. if name = lit ''projects/demo/secrets/vw-password/versions/latest''
                 then Inr (ascii ''hunter2'' @ [0x0A]) else Inl not_found),
      CarConnectivity = (\<lambda>config. Inr (example_client [electric_vehicle, plain_vehicle])),
      utc_now = example_time,
      insert_rows_json = (\<lambda>table rows. Inr [])\<rparr>"

text \<open>
  A run whose garage holds five cars and whose store rejects two rows of the batch; the
  batch of the five rows.
\<close>

definition row_errors :: "pyval list" where
  "row_errors =
     [PDict [(lit ''index'', PInt 1),
             (lit ''errors'', PList [PDict [(lit ''reason'', PStr (lit ''invalid''))]])],
      PDict [(lit ''index'', PInt 3),
             (lit ''errors'', PList [PDict [(lit ''reason'', PStr (lit ''invalid''))]])]]"

definition five_vehicles :: "vehicle list" where
  "five_vehicles =
     [electric_vehicle, plain_vehicle, electric_vehicle, plain_vehicle, electric_vehicle]"

definition rejecting_env :: env where
  "rejecting_env =
     example_env\<lparr>CarConnectivity := (\<lambda>config. Inr (example_client five_vehicles)),
                   insert_rows_json := (\<lambda>table rows. Inr row_errors)\<rparr>"

definition five_rows :: "pyval list" where
  "five_rows = map (\<lambda>v. projr (build_row example_time v)) five_vehicles"

text \<open>
  What resolution is specified to leave in place of a settings value: the fetched text
  for a secret reference whose secret can be fetched, the value itself otherwise; and
  the call the resolver makes for a secret identifier.
\<close>

definition resolved_value :: "env \<Rightarrow> pyval \<Rightarrow> pyval" where
  "resolved_value env v =
     (case v of
        PStr s \<Rightarrow>
          if startswith s (lit ''SECRET:'')
          then (case secret_text env (drop 7 s) of Inr t \<Rightarrow> PStr t | Inl e \<Rightarrow> v)
          else v
      | _ \<Rightarrow> v)"

definition secret_call :: "env \<Rightarrow> pystr \<Rightarrow> event" where
  "secret_call env secret_id = AccessSecretVersion (secret_version_name env secret_id)"

text \<open>
  The example document after resolution, with the text that took the place of the
  secret reference; a secret store whose one secret is itself a string of the
  secret-reference form; and a secret store that has no secret at all.
\<close>

definition resolved_config :: "pystr \<Rightarrow> pyval" where
  "resolved_config password =
     PDict [(lit ''carConnectivity'',
       PDict [(lit ''log_level'', PStr (lit ''info'')),
              (lit ''connectors'',
         PList [PDict [(lit ''type'', PStr (lit ''volkswagen'')),
                       (lit ''config'',
                  PDict [(lit ''username'', PStr (lit ''driver@example.com'')),
                         (lit ''password'', PStr password),
                         (lit ''interval'', PInt 300),
                         (lit ''tags'', PList [PStr (lit ''SECRET:unused'')])])]])])]"

definition leaky_env :: env where
  "leaky_env = example_env\<lparr>access_secret_version := (\<lambda>name. Inr (ascii ''SECRET:rotated''))\<rparr>"

definition failing_env :: env where
  "failing_env = example_env\<lparr>access_secret_version := (\<lambda>name. Inl not_found)\<rparr>"

text \<open>
  A run whose garage holds a good car and the car without an odometer; an exception that
  does not derive from \<open>Exception\<close>, and a run whose fetch-all is interrupted by it.
\<close>

definition broken_env :: env where
  "broken_env =
     example_env\<lparr>CarConnectivity := (\<lambda>config. Inr (example_client [electric_vehicle, broken_vehicle]))\<rparr>"

definition keyboard_interrupt :: exn where
  "keyboard_interrupt = Raised False (lit ''KeyboardInterrupt'') []"

definition interrupted_env :: env where
  "interrupted_env =
     example_env\<lparr>CarConnectivity := (\<lambda>config. Inr (Client (Inl keyboard_interrupt) (Inr None)))\<rparr>"

text \<open>
  The sub-objects alone: every sub-object the code reads without a guard is there,
  whatever its \<open>.value\<close> is.
\<close>

definition sub_objects_present :: "vehicle \<Rightarrow> bool" where
  "sub_objects_present v =
     ((case get_electric_drive v of Some e \<Rightarrow> level e \<noteq> None | None \<Rightarrow> True)
      \<and> vin v \<noteq> None
      \<and> odometer v \<noteq> None
      \<and> (case charging v of
            Some c \<Rightarrow> charging_power c \<noteq> None \<and> charging_type c \<noteq> None
                        \<and> charging_state c \<noteq> None
          | None \<Rightarrow> False)
      \<and> connection_state v \<noteq> None
      \<and> outside_temperature v \<noteq> None
      \<and> (case position v of Some p \<Rightarrow> latitude p \<noteq> None \<and> longitude p \<noteq> None | None \<Rightarrow> True)
      \<and> state v \<noteq> None)"



definition lost_vehicle :: vehicle where
  "lost_vehicle =
     electric_vehicle\<lparr>position := Some \<lparr>latitude = Some (Attribute PNone),
                                             longitude = Some (Attribute (PFloat (Finite (53 / 4))))\<rparr>\<rparr>"

section \<open>Properties\<close>

subsection \<open>Sequencing\<close>

lemma bind_e_Inl [simp]: "bind_e (Inl e) f = Inl e"
  by (simp add: bind_e_def)

lemma bind_e_Inr [simp]: "bind_e (Inr x) f = f x"
  by (simp add: bind_e_def)

lemma bind_e_eq_Inr: "bind_e m f = Inr y \<longleftrightarrow> (\<exists>x. m = Inr x \<and> f x = Inr y)"
  by (cases m) simp_all

lemma bind_e_eq_Inl: "bind_e m f = Inl e \<longleftrightarrow> (m = Inl e \<or> (\<exists>x. m = Inr x \<and> f x = Inl e))"
  by (cases m) simp_all

lemma bind_r_Inl [simp]: "bind_r (es, Inl e) f = (es, Inl e)"
  by (simp add: bind_r_def)

lemma bind_r_Inr [simp]: "bind_r (es, Inr x) f = (es @ fst (f x), snd (f x))"
  by (simp add: bind_r_def split: prod.splits)

lemma ret_simp [simp]: "ret x = ([], Inr x)"
  by (simp add: ret_def)

lemma pure_r_simp [simp]: "pure_r r = ([], r)"
  by (simp add: pure_r_def)

lemma call_simp [simp]: "call ev r = ([ev], r)"
  by (simp add: call_def)

lemma fst_bind_r:
  "fst (bind_r m f) = fst m @ (case snd m of Inl e \<Rightarrow> [] | Inr x \<Rightarrow> fst (f x))"
  by (cases m; cases "snd m") auto

lemma snd_bind_r:
  "snd (bind_r m f) = (case snd m of Inl e \<Rightarrow> Inl e | Inr x \<Rightarrow> snd (f x))"
  by (cases m; cases "snd m") auto

subsection \<open>The batch write\<close>

lemma main_after_init:
  assumes "main_try env = (es, Inr (Some vehicles))"
  shows "main event context env =
    (case build_rows (utc_now env) vehicles [] of
       Inl e \<Rightarrow> (es @ [Now], Inl e)
     | Inr rows \<Rightarrow> (es @ Now # fst (insert_into_bigquery env rows),
                    snd (insert_into_bigquery env rows)))"
  using assms by (simp add: main_def split: sum.splits)

subsection \<open>Rows\<close>

lemma deref_eq_Inr: "deref name obj = Inr x \<longleftrightarrow> obj = Some x"
  by (cases obj) (simp_all add: deref_def)

lemma attr_of_eq_Inr: "attr_of obj = Inr x \<longleftrightarrow> (\<exists>a. obj = Some a \<and> attr_value a = x)"
  by (cases obj) (auto simp: attr_of_def deref_def)

lemma enum_of_eq_Inr: "enum_of obj = Inr x \<longleftrightarrow> (\<exists>a. obj = Some a \<and> enum_member a = Some x)"
  by (cases obj) (auto simp: enum_of_def deref_def split: option.splits)

lemma attr_of_ex: "(\<exists>x. attr_of obj = Inr x) \<longleftrightarrow> obj \<noteq> None"
  by (auto simp: attr_of_eq_Inr)

lemma enum_of_ex: "(\<exists>x. enum_of obj = Inr x) \<longleftrightarrow> has_member obj"
  by (cases obj) (auto simp: enum_of_eq_Inr has_member_def)

lemma py_sub_float_ex: "(\<exists>y. py_sub_float x c = Inr y) \<longleftrightarrow> is_number x"
  by (cases x) (auto simp: py_sub_float_def is_number_def split: sum.splits)

lemma build_row_Inr:
  assumes "build_row t v = Inr row"
  shows "\<exists>soc vehicle_id mileage power ctype is_charging is_online temp ext lat lon st.
    (case get_electric_drive v of Some edrive \<Rightarrow> attr_of (level edrive) | None \<Rightarrow> Inr PNone) = Inr soc
    \<and> attr_of (vin v) = Inr vehicle_id
    \<and> attr_of (odometer v) = Inr mileage
    \<and> bind_e (deref ''power'' (charging v)) (\<lambda>c. attr_of (charging_power c)) = Inr power
    \<and> bind_e (deref ''type'' (charging v)) (\<lambda>c. enum_of (charging_type c)) = Inr ctype
    \<and> bind_e (deref ''state'' (charging v)) (\<lambda>c. enum_of (charging_state c)) = Inr is_charging
    \<and> enum_of (connection_state v) = Inr is_online
    \<and> attr_of (outside_temperature v) = Inr temp
    \<and> py_sub_float temp (float_literal (27315 / 100)) = Inr ext
    \<and> (case position v of Some p \<Rightarrow> attr_of (latitude p) | None \<Rightarrow> Inr PNone) = Inr lat
    \<and> (case position v of Some p \<Rightarrow> attr_of (longitude p) | None \<Rightarrow> Inr PNone) = Inr lon
    \<and> enum_of (state v) = Inr st
    \<and> row = PDict
       [(lit ''ingestion_timestamp'', PStr (isoformat t)),
        (lit ''vehicle_id'', vehicle_id),
        (lit ''mileage'', mileage),
        (lit ''soc'', soc),
        (lit ''charging_power'', power),
        (lit ''charging_type'', ctype),
        (lit ''is_charging'', is_charging),
        (lit ''is_online'', is_online),
        (lit ''external_temperature'', ext),
        (lit ''latitude'', lat),
        (lit ''longitude'', lon),
        (lit ''state'', st)]"
  using assms unfolding build_row_def bind_e_eq_Inr by blast

lemma row_field_PDict: "row_field name (PDict kvs) = map_of kvs (lit name)"
  by (simp add: row_field_def)

lemma build_row_required:
  assumes "build_row t v = Inr row"
  shows "required_present v"
proof -
  from build_row_Inr [OF assms] obtain soc vehicle_id mileage power ctype is_charging is_online
      temp ext lat lon st where
    h: "(case get_electric_drive v of Some edrive \<Rightarrow> attr_of (level edrive) | None \<Rightarrow> Inr PNone) = Inr soc"
      "attr_of (vin v) = Inr vehicle_id"
      "attr_of (odometer v) = Inr mileage"
      "bind_e (deref ''power'' (charging v)) (\<lambda>c. attr_of (charging_power c)) = Inr power"
      "bind_e (deref ''type'' (charging v)) (\<lambda>c. enum_of (charging_type c)) = Inr ctype"
      "bind_e (deref ''state'' (charging v)) (\<lambda>c. enum_of (charging_state c)) = Inr is_charging"
      "enum_of (connection_state v) = Inr is_online"
      "attr_of (outside_temperature v) = Inr temp"
      "py_sub_float temp (float_literal (27315 / 100)) = Inr ext"
      "(case position v of Some p \<Rightarrow> attr_of (latitude p) | None \<Rightarrow> Inr PNone) = Inr lat"
      "(case position v of Some p \<Rightarrow> attr_of (longitude p) | None \<Rightarrow> Inr PNone) = Inr lon"
      "enum_of (state v) = Inr st"
    by blast
  have a: "case get_electric_drive v of Some e \<Rightarrow> level e \<noteq> None | None \<Rightarrow> True"
    using h(1) by (auto simp: attr_of_eq_Inr split: option.splits)
  have b: "vin v \<noteq> None" "odometer v \<noteq> None"
    using h(2,3) by (auto simp: attr_of_eq_Inr)
  have c: "case charging v of
             Some c \<Rightarrow> charging_power c \<noteq> None \<and> has_member (charging_type c) \<and> has_member (charging_state c)
           | None \<Rightarrow> False"
  proof (cases "charging v")
    case None
    with h(4) show ?thesis by (simp add: deref_def)
  next
    case (Some ch)
    with h(4,5,6) have "attr_of (charging_power ch) = Inr power"
      "enum_of (charging_type ch) = Inr ctype" "enum_of (charging_state ch) = Inr is_charging"
      by (simp_all add: deref_def)
    then have "charging_power ch \<noteq> None" "has_member (charging_type ch)"
      "has_member (charging_state ch)"
      using attr_of_ex [of "charging_power ch"] enum_of_ex [of "charging_type ch"]
        enum_of_ex [of "charging_state ch"] by blast+
    with Some show ?thesis by simp
  qed
  have d: "has_member (connection_state v)" "has_member (state v)"
    using h(7,12) enum_of_ex [of "connection_state v"] enum_of_ex [of "state v"] by blast+
  have e: "case outside_temperature v of Some a \<Rightarrow> is_number (attr_value a) | None \<Rightarrow> False"
  proof -
    from h(8) obtain a where "outside_temperature v = Some a" "attr_value a = temp"
      by (auto simp: attr_of_eq_Inr)
    moreover have "is_number temp"
      using h(9) py_sub_float_ex [of temp "float_literal (27315 / 100)"] by blast
    ultimately show ?thesis by simp
  qed
  have f: "case position v of Some p \<Rightarrow> latitude p \<noteq> None \<and> longitude p \<noteq> None | None \<Rightarrow> True"
    using h(10,11) by (auto simp: attr_of_eq_Inr split: option.splits)
  show ?thesis
    unfolding required_present_def using a b c d e f by simp
qed

lemma required_build_row:
  assumes "required_present v"
  shows "\<exists>row. build_row t v = Inr row"
proof -
  from assms have a: "case get_electric_drive v of Some e \<Rightarrow> level e \<noteq> None | None \<Rightarrow> True"
    and b: "vin v \<noteq> None" "odometer v \<noteq> None"
    and c: "case charging v of
             Some c \<Rightarrow> charging_power c \<noteq> None \<and> has_member (charging_type c) \<and> has_member (charging_state c)
           | None \<Rightarrow> False"
    and d: "has_member (connection_state v)" "has_member (state v)"
    and e: "case outside_temperature v of Some a \<Rightarrow> is_number (attr_value a) | None \<Rightarrow> False"
    and f: "case position v of Some p \<Rightarrow> latitude p \<noteq> None \<and> longitude p \<noteq> None | None \<Rightarrow> True"
    unfolding required_present_def by simp_all
  obtain soc where 1: "(case get_electric_drive v of Some edrive \<Rightarrow> attr_of (level edrive) | None \<Rightarrow> Inr PNone) = Inr soc"
  proof (cases "get_electric_drive v")
    case None
    then show ?thesis using that by simp
  next
    case (Some ed)
    with a have "level ed \<noteq> None" by simp
    then obtain x where "attr_of (level ed) = Inr x"
      using attr_of_ex [of "level ed"] by blast
    with Some show ?thesis using that by simp
  qed
  obtain vehicle_id mileage where 2: "attr_of (vin v) = Inr vehicle_id" "attr_of (odometer v) = Inr mileage"
    using b attr_of_ex [of "vin v"] attr_of_ex [of "odometer v"] by blast
  obtain ch where ch: "charging v = Some ch" "charging_power ch \<noteq> None"
      "has_member (charging_type ch)" "has_member (charging_state ch)"
    using c by (cases "charging v") auto
  obtain power ctype is_charging where 3: "attr_of (charging_power ch) = Inr power"
      "enum_of (charging_type ch) = Inr ctype" "enum_of (charging_state ch) = Inr is_charging"
    using ch(2,3,4) attr_of_ex [of "charging_power ch"] enum_of_ex [of "charging_type ch"]
      enum_of_ex [of "charging_state ch"] by blast
  obtain is_online st where 4: "enum_of (connection_state v) = Inr is_online" "enum_of (state v) = Inr st"
    using d enum_of_ex [of "connection_state v"] enum_of_ex [of "state v"] by blast
  obtain ta where ta: "outside_temperature v = Some ta" "is_number (attr_value ta)"
    using e by (cases "outside_temperature v") auto
  obtain ext where 5: "py_sub_float (attr_value ta) (float_literal (27315 / 100)) = Inr ext"
    using ta(2) py_sub_float_ex [of "attr_value ta" "float_literal (27315 / 100)"] by blast
  obtain lat where 6: "(case position v of Some p \<Rightarrow> attr_of (latitude p) | None \<Rightarrow> Inr PNone) = Inr lat"
  proof (cases "position v")
    case None
    then show ?thesis using that by simp
  next
    case (Some p)
    with f have "latitude p \<noteq> None" by simp
    then obtain x where "attr_of (latitude p) = Inr x"
      using attr_of_ex [of "latitude p"] by blast
    with Some show ?thesis using that by simp
  qed
  obtain lon where 7: "(case position v of Some p \<Rightarrow> attr_of (longitude p) | None \<Rightarrow> Inr PNone) = Inr lon"
  proof (cases "position v")
    case None
    then show ?thesis using that by simp
  next
    case (Some p)
    with f have "longitude p \<noteq> None" by simp
    then obtain x where "attr_of (longitude p) = Inr x"
      using attr_of_ex [of "longitude p"] by blast
    with Some show ?thesis using that by simp
  qed
  have 8: "attr_of (outside_temperature v) = Inr (attr_value ta)"
    using ta(1) by (simp add: attr_of_eq_Inr)
  show ?thesis
    unfolding build_row_def using 5
    by (simp add: 1 2 3 4 6 7 8 ch(1) deref_def)
qed

lemma build_row_succeeds_iff: "(\<exists>row. build_row t v = Inr row) \<longleftrightarrow> required_present v"
  using build_row_required required_build_row by blast

lemma build_rows_Inr:
  "build_rows t vs acc = Inr rows \<longleftrightarrow>
     (\<exists>new. list_all2 (\<lambda>v row. build_row t v = Inr row) vs new \<and> rows = acc @ new)"
proof (induction vs arbitrary: acc)
  case Nil
  show ?case by auto
next
  case (Cons v vs)
  show ?case
    by (auto simp: bind_e_eq_Inr Cons.IH list_all2_Cons1)
qed

lemma build_rows_raises:
  assumes "v \<in> set vs" and "\<not> required_present v"
  shows "\<exists>e. build_rows t vs acc = Inl e"
proof (cases "build_rows t vs acc")
  case (Inl e)
  then show ?thesis by blast
next
  case (Inr rows)
  then obtain new where "list_all2 (\<lambda>v row. build_row t v = Inr row) vs new"
    using build_rows_Inr by blast
  with assms(1) obtain row where "build_row t v = Inr row"
    by (auto simp: list_all2_conv_all_nth in_set_conv_nth)
  with assms(2) build_row_required show ?thesis by blast
qed

subsection \<open>Temperature\<close>




lemma required_electric_vehicle: "required_present electric_vehicle"
  by (simp add: required_present_def electric_vehicle_def has_member_def enum_attr_def
      is_number_def)

lemma required_plain_vehicle: "required_present plain_vehicle"
  by (simp add: required_present_def plain_vehicle_def electric_vehicle_def has_member_def
      enum_attr_def is_number_def)

lemma build_row_projr: "required_present v \<Longrightarrow> build_row t v = Inr (projr (build_row t v))"
  using required_build_row [of v t] by auto




subsection \<open>Optional sub-objects\<close>

lemma build_row_timestamp:
  assumes "build_row t v = Inr row"
  shows "row_field ''ingestion_timestamp'' row = Some (PStr (isoformat t))"
  using build_row_Inr [OF assms] by (auto simp: row_field_PDict lit_def)

lemma build_row_soc:
  assumes "build_row t v = Inr row"
  shows "\<exists>soc. (case get_electric_drive v of Some edrive \<Rightarrow> attr_of (level edrive) | None \<Rightarrow> Inr PNone) = Inr soc
           \<and> row_field ''soc'' row = Some soc"
  using build_row_Inr [OF assms] by (auto simp: row_field_PDict lit_def)

lemma build_row_latitude:
  assumes "build_row t v = Inr row"
  shows "\<exists>lat. (case position v of Some p \<Rightarrow> attr_of (latitude p) | None \<Rightarrow> Inr PNone) = Inr lat
           \<and> row_field ''latitude'' row = Some lat"
  using build_row_Inr [OF assms] by (auto simp: row_field_PDict lit_def)

lemma build_row_longitude:
  assumes "build_row t v = Inr row"
  shows "\<exists>lon. (case position v of Some p \<Rightarrow> attr_of (longitude p) | None \<Rightarrow> Inr PNone) = Inr lon
           \<and> row_field ''longitude'' row = Some lon"
  using build_row_Inr [OF assms] by (auto simp: row_field_PDict lit_def)

text \<open>
  C7 (as the code has it). Optional-field nullability. A vehicle without an electric
  drive raises no error for that: with what its row requires present its row is built,
  and the row's \<open>soc\<close> is null. A row built from a vehicle without a position has a
  null latitude and a null longitude. A row built from a vehicle with a position holds
  the values of the position's latitude and longitude attributes, each of which is null
  when that attribute has no value.
\<close>

theorem optional_fields:
  "(get_electric_drive v = None \<and> required_present v \<longrightarrow> (\<exists>row. build_row t v = Inr row))
   \<and> (\<forall>row. build_row t v = Inr row \<longrightarrow>
         (get_electric_drive v = None \<longrightarrow> row_field ''soc'' row = Some PNone)
       \<and> (position v = None \<longrightarrow>
            row_field ''latitude'' row = Some PNone \<and> row_field ''longitude'' row = Some PNone)
       \<and> (\<forall>p. position v = Some p \<longrightarrow>
            (\<exists>la lo. latitude p = Some la \<and> longitude p = Some lo
               \<and> row_field ''latitude'' row = Some (attr_value la)
               \<and> row_field ''longitude'' row = Some (attr_value lo))))"
proof (intro conjI allI impI)
  assume "get_electric_drive v = None \<and> required_present v"
  then show "\<exists>row. build_row t v = Inr row"
    using required_build_row by blast
next
  fix row
  assume "build_row t v = Inr row" and "get_electric_drive v = None"
  then show "row_field ''soc'' row = Some PNone"
    using build_row_soc [of t v row] by auto
next
  fix row
  assume "build_row t v = Inr row" and "position v = None"
  then show "row_field ''latitude'' row = Some PNone"
    using build_row_latitude [of t v row] by auto
next
  fix row
  assume "build_row t v = Inr row" and "position v = None"
  then show "row_field ''longitude'' row = Some PNone"
    using build_row_longitude [of t v row] by auto
next
  fix row p
  assume b: "build_row t v = Inr row" and p: "position v = Some p"
  from build_row_latitude [OF b] p obtain la where
    "latitude p = Some la" "row_field ''latitude'' row = Some (attr_value la)"
    by (auto simp: attr_of_eq_Inr)
  moreover from build_row_longitude [OF b] p obtain lo where
    "longitude p = Some lo" "row_field ''longitude'' row = Some (attr_value lo)"
    by (auto simp: attr_of_eq_Inr)
  ultimately show "\<exists>la lo. latitude p = Some la \<and> longitude p = Some lo
               \<and> row_field ''latitude'' row = Some (attr_value la)
               \<and> row_field ''longitude'' row = Some (attr_value lo)"
    by blast
qed

theorem optional_fields_witness:
  "build_row example_time plain_vehicle = Inr (projr (build_row example_time plain_vehicle))
   \<and> row_field ''soc'' (projr (build_row example_time plain_vehicle)) = Some PNone
   \<and> row_field ''latitude'' (projr (build_row example_time plain_vehicle)) = Some PNone
   \<and> row_field ''longitude'' (projr (build_row example_time plain_vehicle)) = Some PNone
   \<and> row_field ''latitude'' (projr (build_row example_time electric_vehicle))
       = Some (PFloat (Finite (105 / 2)))
   \<and> row_field ''longitude'' (projr (build_row example_time electric_vehicle))
       = Some (PFloat (Finite (53 / 4)))"
proof -
  have p: "get_electric_drive plain_vehicle = None" "position plain_vehicle = None"
    by (simp_all add: plain_vehicle_def)
  have "\<exists>row. build_row example_time plain_vehicle = Inr row"
    using optional_fields [of plain_vehicle example_time] p(1) required_plain_vehicle by blast
  then have b: "build_row example_time plain_vehicle = Inr (projr (build_row example_time plain_vehicle))"
    by auto
  have e: "build_row example_time electric_vehicle = Inr (projr (build_row example_time electric_vehicle))"
    using required_electric_vehicle by (rule build_row_projr)
  have q: "position electric_vehicle
             = Some \<lparr>latitude = Some (Attribute (PFloat (Finite (105 / 2)))),
                     longitude = Some (Attribute (PFloat (Finite (53 / 4))))\<rparr>"
    by (simp add: electric_vehicle_def)
  have "row_field ''latitude'' (projr (build_row example_time electric_vehicle))
          = Some (PFloat (Finite (105 / 2)))
        \<and> row_field ''longitude'' (projr (build_row example_time electric_vehicle))
          = Some (PFloat (Finite (53 / 4)))"
    using optional_fields [of electric_vehicle example_time] e q by fastforce
  moreover have "row_field ''soc'' (projr (build_row example_time plain_vehicle)) = Some PNone
     \<and> row_field ''latitude'' (projr (build_row example_time plain_vehicle)) = Some PNone
     \<and> row_field ''longitude'' (projr (build_row example_time plain_vehicle)) = Some PNone"
    using optional_fields [of plain_vehicle example_time] b p by blast
  ultimately show ?thesis using b by blast
qed

text \<open>
  The claim as the specification states it fails where it says that with a position both
  fields are populated: the guard of lines 104 and 105 looks at the position object
  only, so a position whose latitude has no value gives a null latitude beside a
  longitude that is there.
\<close>

theorem optional_fields_counterexample:
  "position lost_vehicle
     = Some \<lparr>latitude = Some (Attribute PNone),
             longitude = Some (Attribute (PFloat (Finite (53 / 4))))\<rparr>
   \<and> build_row example_time lost_vehicle = Inr (projr (build_row example_time lost_vehicle))
   \<and> row_field ''latitude'' (projr (build_row example_time lost_vehicle)) = Some PNone
   \<and> row_field ''longitude'' (projr (build_row example_time lost_vehicle))
       = Some (PFloat (Finite (53 / 4)))"
proof -
  have p: "position lost_vehicle
     = Some \<lparr>latitude = Some (Attribute PNone),
             longitude = Some (Attribute (PFloat (Finite (53 / 4))))\<rparr>"
    by (simp add: lost_vehicle_def)
  have "required_present lost_vehicle"
    by (simp add: required_present_def lost_vehicle_def electric_vehicle_def has_member_def
        enum_attr_def is_number_def)
  then have b: "build_row example_time lost_vehicle = Inr (projr (build_row example_time lost_vehicle))"
    by (rule build_row_projr)
  from build_row_latitude [OF b] p
  have "row_field ''latitude'' (projr (build_row example_time lost_vehicle)) = Some PNone"
    by (auto simp: attr_of_eq_Inr)
  moreover from build_row_longitude [OF b] p
  have "row_field ''longitude'' (projr (build_row example_time lost_vehicle))
       = Some (PFloat (Finite (53 / 4)))"
    by (auto simp: attr_of_eq_Inr)
  ultimately show ?thesis
    using p b by simp
qed

subsection \<open>Resolving the items of one settings mapping\<close>

lemma get_secret_eq: "get_secret env sid = ([secret_call env sid], secret_text env sid)"
  by (cases "access_secret_version env (secret_version_name env sid)")
    (simp_all add: get_secret_def secret_text_def secret_call_def)

lemma length_SECRET: "length (lit ''SECRET:'') = 7"
  by (simp add: lit_def)

lemma startswith_SECRET: "startswith s (lit ''SECRET:'') \<longleftrightarrow> (\<exists>sid. s = lit ''SECRET:'' @ sid)"
proof
  assume "startswith s (lit ''SECRET:'')"
  then have "take 7 s = lit ''SECRET:''"
    unfolding startswith_def length_SECRET .
  then have "s = lit ''SECRET:'' @ drop 7 s"
    by (metis append_take_drop_id)
  then show "\<exists>sid. s = lit ''SECRET:'' @ sid" ..
next
  assume "\<exists>sid. s = lit ''SECRET:'' @ sid"
  then show "startswith s (lit ''SECRET:'')"
    by (auto simp: startswith_def)
qed

lemma secret_id_of_ref: "py_index (split_once 58 (lit ''SECRET:'' @ sid)) (Suc 0) = Inr sid"
  by (simp add: py_index_def split_once_def lit_def)

lemma drop_SECRET: "drop 7 (lit ''SECRET:'' @ sid) = sid"
  by (simp add: length_SECRET)

lemma resolve_items_ref:
  "resolve_items env ((key, PStr (lit ''SECRET:'' @ sid)) # items) d =
     (case secret_text env sid of
        Inl e \<Rightarrow> ([secret_call env sid], Inl e)
      | Inr t \<Rightarrow> (secret_call env sid # fst (resolve_items env items (dict_set d key (PStr t))),
                  snd (resolve_items env items (dict_set d key (PStr t)))))"
proof -
  have "startswith (lit ''SECRET:'' @ sid) (lit ''SECRET:'')"
    using startswith_SECRET by blast
  then show ?thesis
    by (simp add: secret_id_of_ref get_secret_eq split: sum.splits)
qed

lemma resolve_items_literal:
  "\<not> is_secret_ref val \<Longrightarrow> resolve_items env ((key, val) # items) d = resolve_items env items d"
  by (cases val) (simp_all add: is_secret_ref_def)

declare resolve_items.simps(2) [simp del]

lemma is_secret_ref_iff: "is_secret_ref v \<longleftrightarrow> (\<exists>sid. v = PStr (lit ''SECRET:'' @ sid))"
  by (cases v) (auto simp: is_secret_ref_def startswith_SECRET)

lemma secret_ids_ref [simp]:
  "secret_ids ((key, PStr (lit ''SECRET:'' @ sid)) # items) = sid # secret_ids items"
  using is_secret_ref_iff [of "PStr (lit ''SECRET:'' @ sid)"]
  by (simp add: drop_SECRET del: drop_append)

lemma secret_ids_literal [simp]:
  "\<not> is_secret_ref val \<Longrightarrow> secret_ids ((key, val) # items) = secret_ids items"
  by simp

lemma resolved_value_ref:
  "resolved_value env (PStr (lit ''SECRET:'' @ sid)) =
     (case secret_text env sid of Inr t \<Rightarrow> PStr t | Inl e \<Rightarrow> PStr (lit ''SECRET:'' @ sid))"
  using startswith_SECRET [of "lit ''SECRET:'' @ sid"]
  by (simp add: resolved_value_def drop_SECRET del: drop_append)

lemma resolved_value_literal: "\<not> is_secret_ref v \<Longrightarrow> resolved_value env v = v"
  by (cases v) (simp_all add: resolved_value_def is_secret_ref_def)

lemma secret_ids_set:
  "sid \<in> set (secret_ids items) \<longleftrightarrow> (\<exists>key. (key, PStr (lit ''SECRET:'' @ sid)) \<in> set items)"
proof (induction items)
  case Nil
  show ?case by simp
next
  case (Cons p items)
  obtain key val where p: "p = (key, val)" by (cases p)
  show ?case
  proof (cases "is_secret_ref val")
    case True
    then obtain sid' where v: "val = PStr (lit ''SECRET:'' @ sid')"
      using is_secret_ref_iff by blast
    have "secret_ids (p # items) = sid' # secret_ids items"
      unfolding p v by (rule secret_ids_ref)
    moreover have "(\<exists>k. (k, PStr (lit ''SECRET:'' @ sid)) \<in> set (p # items))
        \<longleftrightarrow> sid = sid' \<or> (\<exists>k. (k, PStr (lit ''SECRET:'' @ sid)) \<in> set items)"
      unfolding p v by auto
    ultimately show ?thesis
      using Cons.IH by auto
  next
    case False
    then have "val \<noteq> PStr (lit ''SECRET:'' @ sid)"
      using is_secret_ref_iff by blast
    then have "(\<exists>k. (k, PStr (lit ''SECRET:'' @ sid)) \<in> set (p # items))
        \<longleftrightarrow> (\<exists>k. (k, PStr (lit ''SECRET:'' @ sid)) \<in> set items)"
      unfolding p by auto
    moreover have "secret_ids (p # items) = secret_ids items"
      unfolding p using False by (rule secret_ids_literal)
    ultimately show ?thesis
      using Cons.IH by simp
  qed
qed

lemma resolve_items_events:
  "ev \<in> set (fst (resolve_items env items d)) \<Longrightarrow> \<exists>sid \<in> set (secret_ids items). ev = secret_call env sid"
proof (induction items arbitrary: d)
  case Nil
  then show ?case by simp
next
  case (Cons p items)
  obtain key val where p: "p = (key, val)" by (cases p)
  show ?case
  proof (cases "is_secret_ref val")
    case True
    then obtain sid where v: "val = PStr (lit ''SECRET:'' @ sid)"
      using is_secret_ref_iff by blast
    have ids: "secret_ids (p # items) = sid # secret_ids items"
      unfolding p v by (rule secret_ids_ref)
    show ?thesis
    proof (cases "secret_text env sid")
      case (Inl e)
      have "fst (resolve_items env (p # items) d) = [secret_call env sid]"
        unfolding p v resolve_items_ref Inl by simp
      with Cons.prems have "ev = secret_call env sid" by simp
      then show ?thesis unfolding ids by simp
    next
      case (Inr t)
      have "fst (resolve_items env (p # items) d)
              = secret_call env sid # fst (resolve_items env items (dict_set d key (PStr t)))"
        unfolding p v resolve_items_ref Inr by simp
      with Cons.prems have "ev = secret_call env sid
          \<or> ev \<in> set (fst (resolve_items env items (dict_set d key (PStr t))))"
        by simp
      then show ?thesis
        unfolding ids using Cons.IH by auto
    qed
  next
    case False
    have "resolve_items env (p # items) d = resolve_items env items d"
      unfolding p using False by (rule resolve_items_literal)
    with Cons.prems have "ev \<in> set (fst (resolve_items env items d))" by simp
    moreover have "secret_ids (p # items) = secret_ids items"
      unfolding p using False by (rule secret_ids_literal)
    ultimately show ?thesis
      using Cons.IH by simp
  qed
qed

lemma dict_set_middle:
  "key \<notin> fst ` set pre \<Longrightarrow> dict_set (pre @ (key, v) # rest) key v' = pre @ (key, v') # rest"
  by (induction pre) auto

lemma resolve_items_Inr:
  assumes "resolve_items env items (pre @ items) = (es, Inr d')"
    and "distinct (map fst (pre @ items))"
  shows "d' = pre @ map (\<lambda>(key, val). (key, resolved_value env val)) items
         \<and> es = map (secret_call env) (secret_ids items)
         \<and> (\<forall>sid \<in> set (secret_ids items). \<exists>t. secret_text env sid = Inr t)"
  using assms
proof (induction items arbitrary: pre es)
  case Nil
  then show ?case by simp
next
  case (Cons p items)
  obtain key val where p: "p = (key, val)" by (cases p)
  from Cons.prems(2) have k: "key \<notin> fst ` set pre"
    and dist: "distinct (map fst ((pre @ [(key, w)]) @ items))" for w
    unfolding p by auto
  show ?case
  proof (cases "is_secret_ref val")
    case True
    then obtain sid where v: "val = PStr (lit ''SECRET:'' @ sid)"
      using is_secret_ref_iff by blast
    have ids: "secret_ids (p # items) = sid # secret_ids items"
      unfolding p v by (rule secret_ids_ref)
    have rv: "resolved_value env val
        = (case secret_text env sid of Inr t \<Rightarrow> PStr t | Inl e \<Rightarrow> PStr (lit ''SECRET:'' @ sid))"
      unfolding v by (rule resolved_value_ref)
    show ?thesis
    proof (cases "secret_text env sid")
      case (Inl e)
      have "snd (resolve_items env (p # items) (pre @ p # items)) = Inl e"
        unfolding p v resolve_items_ref Inl by simp
      with Cons.prems(1) show ?thesis by simp
    next
      case (Inr t)
      have ds: "dict_set (pre @ p # items) key (PStr t) = (pre @ [(key, PStr t)]) @ items"
        unfolding p using dict_set_middle [OF k] by simp
      have "resolve_items env (p # items) (pre @ p # items)
          = (secret_call env sid # fst (resolve_items env items ((pre @ [(key, PStr t)]) @ items)),
             snd (resolve_items env items ((pre @ [(key, PStr t)]) @ items)))"
        using ds unfolding p v resolve_items_ref Inr by simp
      with Cons.prems(1) have
        es: "es = secret_call env sid # fst (resolve_items env items ((pre @ [(key, PStr t)]) @ items))"
        and "snd (resolve_items env items ((pre @ [(key, PStr t)]) @ items)) = Inr d'"
        by simp_all
      then have r: "resolve_items env items ((pre @ [(key, PStr t)]) @ items)
          = (fst (resolve_items env items ((pre @ [(key, PStr t)]) @ items)), Inr d')"
        by (metis prod.collapse)
      from Cons.IH [OF r dist] have
        "d' = (pre @ [(key, PStr t)]) @ map (\<lambda>(key, val). (key, resolved_value env val)) items"
        "fst (resolve_items env items ((pre @ [(key, PStr t)]) @ items))
           = map (secret_call env) (secret_ids items)"
        "\<forall>sid \<in> set (secret_ids items). \<exists>t. secret_text env sid = Inr t"
        by blast+
      then show ?thesis
        unfolding ids es using Inr by (simp add: p rv)
    qed
  next
    case False
    have "resolve_items env (p # items) (pre @ p # items) = resolve_items env items (pre @ p # items)"
      unfolding p using False by (rule resolve_items_literal)
    with Cons.prems(1) have r: "resolve_items env items ((pre @ [(key, val)]) @ items) = (es, Inr d')"
      unfolding p by simp
    have ids: "secret_ids (p # items) = secret_ids items"
      unfolding p using False by (rule secret_ids_literal)
    from Cons.IH [OF r dist] show ?thesis
      unfolding ids by (simp add: p resolved_value_literal [OF False])
  qed
qed

lemma resolve_items_raises:
  assumes "sid \<in> set (secret_ids items)" and "secret_text env sid = Inl e"
  shows "\<exists>e'. snd (resolve_items env items d) = Inl e'"
  using assms(1)
proof (induction items arbitrary: d)
  case Nil
  then show ?case by simp
next
  case (Cons p items)
  obtain key val where p: "p = (key, val)" by (cases p)
  show ?case
  proof (cases "is_secret_ref val")
    case True
    then obtain sid' where v: "val = PStr (lit ''SECRET:'' @ sid')"
      using is_secret_ref_iff by blast
    have ids: "secret_ids (p # items) = sid' # secret_ids items"
      unfolding p v by (rule secret_ids_ref)
    show ?thesis
    proof (cases "secret_text env sid'")
      case (Inl e')
      have "snd (resolve_items env (p # items) d) = Inl e'"
        unfolding p v resolve_items_ref Inl by simp
      then show ?thesis by blast
    next
      case (Inr t)
      with assms(2) have "sid' \<noteq> sid" by auto
      with Cons.prems have "sid \<in> set (secret_ids items)"
        unfolding ids by simp
      from Cons.IH [OF this] obtain e' where
        "snd (resolve_items env items (dict_set d key (PStr t))) = Inl e'"
        by blast
      moreover have "snd (resolve_items env (p # items) d)
          = snd (resolve_items env items (dict_set d key (PStr t)))"
        unfolding p v resolve_items_ref Inr by simp
      ultimately show ?thesis by simp
    qed
  next
    case False
    have ids: "secret_ids (p # items) = secret_ids items"
      unfolding p using False by (rule secret_ids_literal)
    have "resolve_items env (p # items) d = resolve_items env items d"
      unfolding p using False by (rule resolve_items_literal)
    moreover from Cons.prems have "sid \<in> set (secret_ids items)"
      unfolding ids .
    ultimately show ?thesis
      using Cons.IH by simp
  qed
qed

subsection \<open>Resolving one connector\<close>

lemma resolve_items_Inr_events:
  assumes "resolve_items env items d = (es, Inr d')"
  shows "es = map (secret_call env) (secret_ids items)
         \<and> (\<forall>sid \<in> set (secret_ids items). \<exists>t. secret_text env sid = Inr t)"
  using assms
proof (induction items arbitrary: d es)
  case Nil
  then show ?case by simp
next
  case (Cons p items)
  obtain key val where p: "p = (key, val)" by (cases p)
  show ?case
  proof (cases "is_secret_ref val")
    case True
    then obtain sid where v: "val = PStr (lit ''SECRET:'' @ sid)"
      using is_secret_ref_iff by blast
    have ids: "secret_ids (p # items) = sid # secret_ids items"
      unfolding p v by (rule secret_ids_ref)
    show ?thesis
    proof (cases "secret_text env sid")
      case (Inl e)
      have "snd (resolve_items env (p # items) d) = Inl e"
        unfolding p v resolve_items_ref Inl by simp
      with Cons.prems show ?thesis by simp
    next
      case (Inr t)
      have "resolve_items env (p # items) d
          = (secret_call env sid # fst (resolve_items env items (dict_set d key (PStr t))),
             snd (resolve_items env items (dict_set d key (PStr t))))"
        unfolding p v resolve_items_ref Inr by simp
      with Cons.prems have
        es: "es = secret_call env sid # fst (resolve_items env items (dict_set d key (PStr t)))"
        and "snd (resolve_items env items (dict_set d key (PStr t))) = Inr d'"
        by simp_all
      then have r: "resolve_items env items (dict_set d key (PStr t))
          = (fst (resolve_items env items (dict_set d key (PStr t))), Inr d')"
        by (metis prod.collapse)
      from Cons.IH [OF r] show ?thesis
        unfolding ids es using Inr by simp
    qed
  next
    case False
    have "resolve_items env (p # items) d = resolve_items env items d"
      unfolding p using False by (rule resolve_items_literal)
    with Cons.prems have r: "resolve_items env items d = (es, Inr d')" by simp
    have ids: "secret_ids (p # items) = secret_ids items"
      unfolding p using False by (rule secret_ids_literal)
    from Cons.IH [OF r] show ?thesis
      unfolding ids .
  qed
qed

lemma map_of_dict_set: "map_of (dict_set kvs key v) key = Some v"
  by (induction kvs) auto

lemma map_of_dict_set_other: "k \<noteq> key \<Longrightarrow> map_of (dict_set kvs key v) k = map_of kvs k"
  by (induction kvs) auto

lemma py_contains_PDict:
  "py_contains key (PDict kvs) = Inr (map_of kvs key \<noteq> None)"
  by (simp add: py_contains_def map_of_eq_None_iff)

lemma settings_of_Some:
  "settings_of c = Some kvs \<longleftrightarrow>
     (\<exists>cd. c = PDict cd \<and> map_of cd (lit ''config'') = Some (PDict kvs))"
  by (auto simp: settings_of_def split: pyval.splits option.splits)

lemma resolve_connector_settings:
  assumes "settings_of c = Some kvs"
  shows "resolve_connector env c =
     (fst (resolve_items env kvs kvs),
      case snd (resolve_items env kvs kvs) of
        Inl e \<Rightarrow> Inl e
      | Inr d \<Rightarrow> Inr (py_setitem c (lit ''config'') (PDict d)))"
proof -
  from assms obtain cd where c: "c = PDict cd" and m: "map_of cd (lit ''config'') = Some (PDict kvs)"
    using settings_of_Some by blast
  show ?thesis
    unfolding resolve_connector_def c
    by (cases "resolve_items env kvs kvs"; cases "snd (resolve_items env kvs kvs)")
      (simp_all add: py_contains_PDict m py_getitem_def py_items_def)
qed

lemma resolve_connector_no_settings:
  assumes "settings_of c = None"
  shows "fst (resolve_connector env c) = []
         \<and> (\<forall>c'. snd (resolve_connector env c) = Inr c' \<longrightarrow> c' = c)"
proof (cases c)
  case (PDict cd)
  show ?thesis
  proof (cases "map_of cd (lit ''config'')")
    case None
    then show ?thesis
      unfolding resolve_connector_def PDict by (simp add: py_contains_PDict)
  next
    case (Some cfg)
    with assms PDict have "\<And>kvs. cfg \<noteq> PDict kvs"
      by (auto simp: settings_of_def)
    then have "\<exists>e. py_items cfg = Inl e"
      by (cases cfg) (auto simp: py_items_def)
    then obtain e where "py_items cfg = Inl e" ..
    with Some show ?thesis
      unfolding resolve_connector_def PDict
      by (simp add: py_contains_PDict py_getitem_def)
  qed
next
  case (PList xs)
  then show ?thesis
    unfolding resolve_connector_def by (simp add: py_contains_def py_getitem_def)
next
  case (PStr s)
  then show ?thesis
    unfolding resolve_connector_def by (simp add: py_contains_def py_getitem_def)
qed (simp_all add: resolve_connector_def py_contains_def)

lemma settings_items_simps:
  "settings_of c = Some kvs \<Longrightarrow> settings_items c = kvs"
  "settings_of c = None \<Longrightarrow> settings_items c = []"
  by (simp_all add: settings_items_def)

lemma resolve_connector_events:
  assumes "ev \<in> set (fst (resolve_connector env c))"
  shows "\<exists>sid \<in> set (secret_ids (settings_items c)). ev = secret_call env sid"
proof (cases "settings_of c")
  case None
  with assms resolve_connector_no_settings [of c env] show ?thesis by simp
next
  case (Some kvs)
  with assms have "ev \<in> set (fst (resolve_items env kvs kvs))"
    by (simp add: resolve_connector_settings)
  then show ?thesis
    using resolve_items_events settings_items_simps(1) [OF Some] by simp
qed

lemma resolve_connector_Inr:
  assumes "resolve_connector env c = (es, Inr c')"
  shows "es = map (secret_call env) (secret_ids (settings_items c))"
    and "\<forall>sid \<in> set (secret_ids (settings_items c)). \<exists>t. secret_text env sid = Inr t"
    and "settings_of c = None \<Longrightarrow> c' = c"
    and "settings_of c = Some kvs \<Longrightarrow> distinct (map fst kvs) \<Longrightarrow>
           settings_of c' = Some (map (\<lambda>(key, val). (key, resolved_value env val)) kvs)"
proof -
  have "es = map (secret_call env) (secret_ids (settings_items c))
      \<and> (\<forall>sid \<in> set (secret_ids (settings_items c)). \<exists>t. secret_text env sid = Inr t)"
  proof (cases "settings_of c")
    case None
    with assms resolve_connector_no_settings [of c env] show ?thesis
      by (simp add: settings_items_simps)
  next
    case (Some kvs')
    with assms obtain d where "resolve_items env kvs' kvs' = (es, Inr d)"
      unfolding resolve_connector_settings [OF Some]
      by (cases "resolve_items env kvs' kvs'"; cases "snd (resolve_items env kvs' kvs')") auto
    from resolve_items_Inr_events [OF this] show ?thesis
      by (simp add: settings_items_simps(1) [OF Some])
  qed
  then show "es = map (secret_call env) (secret_ids (settings_items c))"
    and "\<forall>sid \<in> set (secret_ids (settings_items c)). \<exists>t. secret_text env sid = Inr t"
    by blast+
  show "c' = c" if "settings_of c = None"
    using assms resolve_connector_no_settings [OF that, of env] by simp
  show "settings_of c' = Some (map (\<lambda>(key, val). (key, resolved_value env val)) kvs)"
    if s: "settings_of c = Some kvs" and dist: "distinct (map fst kvs)"
  proof -
    from assms obtain d where r: "resolve_items env kvs kvs = (es, Inr d)"
      and c': "c' = py_setitem c (lit ''config'') (PDict d)"
      unfolding resolve_connector_settings [OF s]
      by (cases "resolve_items env kvs kvs"; cases "snd (resolve_items env kvs kvs)") auto
    from r dist have "d = map (\<lambda>(key, val). (key, resolved_value env val)) kvs"
      using resolve_items_Inr [of env kvs "[]" es d] by simp
    moreover from s obtain cd where "c = PDict cd"
      using settings_of_Some by blast
    ultimately show ?thesis
      unfolding c' by (simp add: py_setitem_def settings_of_def map_of_dict_set)
  qed
qed

lemma resolve_connector_raises:
  assumes "settings_of c = Some kvs"
    and "sid \<in> set (secret_ids kvs)"
    and "secret_text env sid = Inl e"
  shows "\<exists>e'. snd (resolve_connector env c) = Inl e'"
proof -
  from resolve_items_raises [OF assms(2,3)] obtain e' where
    "snd (resolve_items env kvs kvs) = Inl e'"
    by blast
  then show ?thesis
    by (simp add: resolve_connector_settings [OF assms(1)])
qed

subsection \<open>Resolving the connectors of a document\<close>

lemma resolve_connectors_Cons:
  "resolve_connectors env (c # cs) =
     (fst (resolve_connector env c)
        @ (case snd (resolve_connector env c) of
             Inl e \<Rightarrow> []
           | Inr c' \<Rightarrow> fst (resolve_connectors env cs)),
      case snd (resolve_connector env c) of
        Inl e \<Rightarrow> Inl e
      | Inr c' \<Rightarrow>
          (case snd (resolve_connectors env cs) of
             Inl e \<Rightarrow> Inl e
           | Inr cs' \<Rightarrow> Inr (c' # cs')))"
  by (rule prod_eqI) (simp_all add: fst_bind_r snd_bind_r split: sum.splits)

declare resolve_connectors.simps(2) [simp del]

lemma resolve_connectors_events:
  "ev \<in> set (fst (resolve_connectors env cs)) \<Longrightarrow>
     \<exists>c \<in> set cs. \<exists>sid \<in> set (secret_ids (settings_items c)). ev = secret_call env sid"
proof (induction cs)
  case Nil
  then show ?case by simp
next
  case (Cons c cs)
  from Cons.prems have "ev \<in> set (fst (resolve_connector env c))
      \<or> ev \<in> set (fst (resolve_connectors env cs))"
    by (auto simp: resolve_connectors_Cons split: sum.splits)
  then show ?case
    using resolve_connector_events [of ev env c] Cons.IH by auto
qed

lemma resolve_connectors_Inr:
  assumes "resolve_connectors env cs = (es, Inr cs')"
  shows "es = map (secret_call env) (concat (map (\<lambda>c. secret_ids (settings_items c)) cs))
         \<and> list_all2 (\<lambda>c c'. \<exists>es. resolve_connector env c = (es, Inr c')) cs cs'"
  using assms
proof (induction cs arbitrary: es cs')
  case Nil
  then show ?case by simp
next
  case (Cons c cs)
  from Cons.prems obtain c' where c': "snd (resolve_connector env c) = Inr c'"
    by (cases "snd (resolve_connector env c)") (simp_all add: resolve_connectors_Cons)
  with Cons.prems obtain rest where rest: "snd (resolve_connectors env cs) = Inr rest"
    by (cases "snd (resolve_connectors env cs)") (simp_all add: resolve_connectors_Cons)
  from Cons.prems c' rest have es: "es = fst (resolve_connector env c) @ fst (resolve_connectors env cs)"
    and cs': "cs' = c' # rest"
    by (simp_all add: resolve_connectors_Cons)
  have rc: "resolve_connector env c = (fst (resolve_connector env c), Inr c')"
    using c' by (metis prod.collapse)
  have rr: "resolve_connectors env cs = (fst (resolve_connectors env cs), Inr rest)"
    using rest by (metis prod.collapse)
  from resolve_connector_Inr(1) [OF rc] Cons.IH [OF rr] rc show ?case
    unfolding es cs' by auto
qed

lemma resolve_connectors_raises:
  assumes "c \<in> set cs" and "snd (resolve_connector env c) = Inl e"
  shows "\<exists>e'. snd (resolve_connectors env cs) = Inl e'"
  using assms(1)
proof (induction cs)
  case Nil
  then show ?case by simp
next
  case (Cons c0 cs)
  show ?case
  proof (cases "snd (resolve_connector env c0)")
    case (Inl e0)
    then show ?thesis by (simp add: resolve_connectors_Cons)
  next
    case (Inr c0')
    with assms(2) have "c0 \<noteq> c" by auto
    with Cons.prems have "c \<in> set cs" by simp
    from Cons.IH [OF this] Inr show ?thesis
      by (auto simp: resolve_connectors_Cons)
  qed
qed

lemma resolve_connectors_no_settings:
  assumes "\<forall>c \<in> set cs. settings_of c = None"
  shows "fst (resolve_connectors env cs) = []
         \<and> (\<forall>cs'. snd (resolve_connectors env cs) = Inr cs' \<longrightarrow> cs' = cs)"
  using assms
proof (induction cs)
  case Nil
  then show ?case by simp
next
  case (Cons c cs)
  then have "settings_of c = None" by simp
  from resolve_connector_no_settings [OF this, of env] Cons show ?case
    by (auto simp: resolve_connectors_Cons split: sum.splits)
qed

text \<open>A document of the expected shape.\<close>

lemma connectors_of_standard:
  assumes "map_of doc (lit ''carConnectivity'') = Some (PDict cc)"
    and "map_of cc (lit ''connectors'') = Some (PList cs)"
  shows "connectors_of (PDict doc) = cs"
  using assms by (simp add: connectors_of_def)

lemma connectors_of_nonempty:
  assumes "connectors_of config \<noteq> []"
  shows "\<exists>doc cc. config = PDict doc \<and> map_of doc (lit ''carConnectivity'') = Some (PDict cc)
           \<and> map_of cc (lit ''connectors'') = Some (PList (connectors_of config))"
  using assms by (auto simp: connectors_of_def split: pyval.splits option.splits)

lemma build_config_standard:
  assumes "load_json env path = Inr (PDict doc)"
    and "map_of doc (lit ''carConnectivity'') = Some (PDict cc)"
    and "map_of cc (lit ''connectors'') = Some (PList cs)"
  shows "build_config_with_secrets env path =
     (LoadJson path # fst (resolve_connectors env cs),
      case snd (resolve_connectors env cs) of
        Inl e \<Rightarrow> Inl e
      | Inr cs' \<Rightarrow>
          Inr (PDict (dict_set doc (lit ''carConnectivity'')
                 (PDict (dict_set cc (lit ''connectors'') (PList cs'))))))"
  unfolding build_config_with_secrets_def
  by (rule prod_eqI)
    (simp_all add: assms py_contains_PDict py_getitem_def py_iter_def py_setitem_def fst_bind_r
      snd_bind_r split: sum.splits)

lemma connectors_of_resolved:
  "connectors_of (PDict (dict_set doc (lit ''carConnectivity'')
     (PDict (dict_set cc (lit ''connectors'') (PList cs'))))) = cs'"
  by (simp add: connectors_of_def map_of_dict_set)

text \<open>A document of any other shape: nothing is fetched and nothing is changed.\<close>

lemma settings_of_PStr: "settings_of (PStr s) = None"
  by (simp add: settings_of_def)

lemma build_config_tail:
  assumes "\<And>cs. conns \<noteq> PList cs"
  shows "fst (bind_r (pure_r (py_iter conns)) (\<lambda>cs.
            bind_r (resolve_connectors env cs) (\<lambda>cs'.
            ret (case conns of PList _ \<Rightarrow> f cs' | _ \<Rightarrow> config)))) = []
       \<and> (\<forall>config'. snd (bind_r (pure_r (py_iter conns)) (\<lambda>cs.
            bind_r (resolve_connectors env cs) (\<lambda>cs'.
            ret (case conns of PList _ \<Rightarrow> f cs' | _ \<Rightarrow> config)))) = Inr config'
            \<longrightarrow> config' = config)"
proof (cases conns)
  case (PDict kvs)
  have "\<forall>c \<in> set (map (\<lambda>p. PStr (fst p)) kvs). settings_of c = None"
    by (auto simp: settings_of_PStr)
  from resolve_connectors_no_settings [OF this, of env] show ?thesis
    unfolding PDict by (simp add: py_iter_def fst_bind_r snd_bind_r split: sum.splits)
next
  case (PStr s)
  have "\<forall>c \<in> set (map (\<lambda>c. PStr [c]) s). settings_of c = None"
    by (auto simp: settings_of_PStr)
  from resolve_connectors_no_settings [OF this, of env] show ?thesis
    unfolding PStr by (simp add: py_iter_def fst_bind_r snd_bind_r split: sum.splits)
next
  case (PList cs)
  with assms show ?thesis by blast
qed (simp_all add: py_iter_def)

lemma build_config_nonstandard:
  assumes "load_json env path = Inr config"
    and "\<not> (\<exists>doc cc cs. config = PDict doc
              \<and> map_of doc (lit ''carConnectivity'') = Some (PDict cc)
              \<and> map_of cc (lit ''connectors'') = Some (PList cs))"
  shows "fst (build_config_with_secrets env path) = [LoadJson path]
         \<and> (\<forall>config'. snd (build_config_with_secrets env path) = Inr config' \<longrightarrow> config' = config)"
proof (cases config)
  case (PDict doc)
  show ?thesis
  proof (cases "map_of doc (lit ''carConnectivity'')")
    case None
    then show ?thesis
      unfolding build_config_with_secrets_def
      by (simp add: assms(1) PDict py_contains_PDict)
  next
    case (Some ccv)
    show ?thesis
    proof (cases ccv)
      case cc: (PDict cc)
      show ?thesis
      proof (cases "map_of cc (lit ''connectors'')")
        case None
        then show ?thesis
          unfolding build_config_with_secrets_def
          by (simp add: assms(1) PDict Some cc py_contains_PDict py_getitem_def)
      next
        case conns: (Some conns)
        from assms(2) PDict Some cc conns have "\<And>cs. conns \<noteq> PList cs"
          by auto
        from build_config_tail [OF this, where env = env and config = "PDict doc"
            and f = "\<lambda>cs'. py_setitem (PDict doc) (lit ''carConnectivity'')
                      (py_setitem (PDict cc) (lit ''connectors'') (PList cs'))"]
        show ?thesis
          unfolding build_config_with_secrets_def
          by (simp add: assms(1) PDict Some cc conns py_contains_PDict py_getitem_def)
      qed
    next
      case (PList xs)
      then show ?thesis
        unfolding build_config_with_secrets_def
        by (simp add: assms(1) PDict Some py_contains_PDict py_getitem_def py_contains_def)
    next
      case (PStr s)
      then show ?thesis
        unfolding build_config_with_secrets_def
        by (simp add: assms(1) PDict Some py_contains_PDict py_getitem_def py_contains_def)
    qed (simp_all add: build_config_with_secrets_def assms(1) PDict Some py_contains_PDict
        py_getitem_def py_contains_def)
  qed
next
  case (PList xs)
  then show ?thesis
    unfolding build_config_with_secrets_def
    by (simp add: assms(1) py_contains_def py_getitem_def)
next
  case (PStr s)
  then show ?thesis
    unfolding build_config_with_secrets_def
    by (simp add: assms(1) py_contains_def py_getitem_def)
qed (simp_all add: build_config_with_secrets_def assms(1) py_contains_def)

lemma connectors_of_nonstandard:
  assumes "\<not> (\<exists>doc cc cs. config = PDict doc
              \<and> map_of doc (lit ''carConnectivity'') = Some (PDict cc)
              \<and> map_of cc (lit ''connectors'') = Some (PList cs))"
  shows "connectors_of config = []"
  using assms connectors_of_nonempty by blast

lemma build_config_load_fails:
  "load_json env path = Inl e \<Longrightarrow> build_config_with_secrets env path = ([LoadJson path], Inl e)"
  by (simp add: build_config_with_secrets_def)

text \<open>
  Every call the resolver makes to the secret store is the call for a secret reference
  that is an immediate string value of some connector's settings mapping, whatever the
  outcome of the resolution.
\<close>

lemma build_config_events:
  assumes "load_json env path = Inr config"
    and "ev \<in> set (fst (build_config_with_secrets env path))"
  shows "ev = LoadJson path
         \<or> (\<exists>c \<in> set (connectors_of config). \<exists>sid \<in> set (secret_ids (settings_items c)).
               ev = secret_call env sid)"
proof (cases "\<exists>doc cc cs. config = PDict doc
              \<and> map_of doc (lit ''carConnectivity'') = Some (PDict cc)
              \<and> map_of cc (lit ''connectors'') = Some (PList cs)")
  case True
  then obtain doc cc cs where s: "config = PDict doc"
      "map_of doc (lit ''carConnectivity'') = Some (PDict cc)"
      "map_of cc (lit ''connectors'') = Some (PList cs)"
    by blast
  from assms(2) have "ev = LoadJson path \<or> ev \<in> set (fst (resolve_connectors env cs))"
    unfolding build_config_standard [OF assms(1) [unfolded s(1)] s(2,3)] by simp
  then show ?thesis
    using resolve_connectors_events [of ev env cs] connectors_of_standard [OF s(2,3)] s(1)
    by auto
next
  case False
  from build_config_nonstandard [OF assms(1) False] assms(2) show ?thesis
    by simp
qed

lemma build_config_Inr:
  assumes "load_json env path = Inr config"
    and "build_config_with_secrets env path = (es, Inr config')"
  shows "es = LoadJson path
           # map (secret_call env) (concat (map (\<lambda>c. secret_ids (settings_items c)) (connectors_of config)))
         \<and> list_all2 (\<lambda>c c'. \<exists>es. resolve_connector env c = (es, Inr c'))
             (connectors_of config) (connectors_of config')"
proof (cases "\<exists>doc cc cs. config = PDict doc
              \<and> map_of doc (lit ''carConnectivity'') = Some (PDict cc)
              \<and> map_of cc (lit ''connectors'') = Some (PList cs)")
  case True
  then obtain doc cc cs where s: "config = PDict doc"
      "map_of doc (lit ''carConnectivity'') = Some (PDict cc)"
      "map_of cc (lit ''connectors'') = Some (PList cs)"
    by blast
  note b = build_config_standard [OF assms(1) [unfolded s(1)] s(2,3)]
  from assms(2) obtain cs' where cs': "snd (resolve_connectors env cs) = Inr cs'"
    unfolding b by (cases "snd (resolve_connectors env cs)") simp_all
  from assms(2) have es: "es = LoadJson path # fst (resolve_connectors env cs)"
    and c': "config' = PDict (dict_set doc (lit ''carConnectivity'')
                 (PDict (dict_set cc (lit ''connectors'') (PList cs'))))"
    unfolding b cs' by simp_all
  have "resolve_connectors env cs = (fst (resolve_connectors env cs), Inr cs')"
    using cs' by (metis prod.collapse)
  from resolve_connectors_Inr [OF this] show ?thesis
    unfolding es c' connectors_of_resolved s(1) connectors_of_standard [OF s(2,3)] by simp
next
  case False
  from build_config_nonstandard [OF assms(1) False] assms(2) have "es = [LoadJson path]" "config' = config"
    by simp_all
  then show ?thesis
    using connectors_of_nonstandard [OF False] by simp
qed

subsection \<open>The example document\<close>

lemma secret_text_Inr:
  "secret_text env sid = Inr t \<longleftrightarrow>
     (\<exists>data text. access_secret_version env (secret_version_name env sid) = Inr data
        \<and> utf8_decode data = Inr text \<and> t = strip text)"
  unfolding secret_text_def bind_e_eq_Inr by auto

lemma secret_text_store_fails:
  "access_secret_version env (secret_version_name env sid) = Inl e \<Longrightarrow> secret_text env sid = Inl e"
  by (simp add: secret_text_def)

lemma example_settings:
  "settings_of (PDict [(lit ''type'', PStr (lit ''volkswagen'')),
                       (lit ''config'', PDict kvs)]) = Some kvs"
  by (simp add: settings_of_def lit_def)

lemma example_connectors:
  "connectors_of example_config =
     [PDict [(lit ''type'', PStr (lit ''volkswagen'')),
             (lit ''config'',
        PDict [(lit ''username'', PStr (lit ''driver@example.com'')),
               (lit ''password'', PStr (lit ''SECRET:'' @ lit ''vw-password'')),
               (lit ''interval'', PInt 300),
               (lit ''tags'', PList [PStr (lit ''SECRET:unused'')])])]]"
  by (simp add: connectors_of_def example_config_def lit_def)

lemma resolved_connectors:
  "connectors_of (resolved_config password) =
     [PDict [(lit ''type'', PStr (lit ''volkswagen'')),
             (lit ''config'',
        PDict [(lit ''username'', PStr (lit ''driver@example.com'')),
               (lit ''password'', PStr password),
               (lit ''interval'', PInt 300),
               (lit ''tags'', PList [PStr (lit ''SECRET:unused'')])])]]"
  by (simp add: connectors_of_def resolved_config_def lit_def)

lemma example_secret_ids:
  "secret_ids [(lit ''username'', PStr (lit ''driver@example.com'')),
               (lit ''password'', PStr (lit ''SECRET:'' @ lit ''vw-password'')),
               (lit ''interval'', PInt 300),
               (lit ''tags'', PList [PStr (lit ''SECRET:unused'')])] = [lit ''vw-password'']"
proof -
  have "\<not> is_secret_ref (PStr (lit ''driver@example.com''))" "\<not> is_secret_ref (PInt 300)"
    "\<not> is_secret_ref (PList [PStr (lit ''SECRET:unused'')])"
    by (simp_all add: is_secret_ref_def startswith_def lit_def)
  then show ?thesis
    by (simp add: secret_ids_ref del: secret_ids.simps(2))
qed

lemma example_secret_name:
  "PROJECT_ID env = Some (lit ''demo'') \<Longrightarrow>
     secret_version_name env (lit ''vw-password'')
       = lit ''projects/demo/secrets/vw-password/versions/latest''"
  by (simp add: secret_version_name_def format_project_def lit_def)

lemma example_secret_text: "secret_text example_env (lit ''vw-password'') = Inr (lit ''hunter2'')"
proof -
  have "utf8_decode (ascii ''hunter2'' @ [0x0A]) = Inr (lit ''hunter2'' @ [10])"
    by (simp add: ascii_def lit_def cons_e_def)
  moreover have "strip (lit ''hunter2'' @ [10]) = lit ''hunter2''"
    by (simp add: strip_def lit_def is_whitespace_def)
  moreover have "PROJECT_ID example_env = Some (lit ''demo'')"
    by (simp add: example_env_def)
  ultimately show ?thesis
    by (simp add: secret_text_def example_secret_name) (simp add: example_env_def)
qed

lemma leaky_secret_text: "secret_text leaky_env (lit ''vw-password'') = Inr (lit ''SECRET:rotated'')"
proof -
  have "utf8_decode (ascii ''SECRET:rotated'') = Inr (lit ''SECRET:rotated'')"
    by (simp add: ascii_def lit_def cons_e_def)
  moreover have "strip (lit ''SECRET:rotated'') = lit ''SECRET:rotated''"
    by (simp add: strip_def lit_def is_whitespace_def)
  ultimately show ?thesis
    by (simp add: secret_text_def leaky_env_def)
qed

lemma failing_secret_text: "secret_text failing_env sid = Inl not_found"
  by (simp add: secret_text_def failing_env_def)

lemma example_load:
  "load_json example_env (lit ''config.json'') = Inr example_config"
  "load_json leaky_env (lit ''config.json'') = Inr example_config"
  "load_json failing_env (lit ''config.json'') = Inr example_config"
  by (simp_all add: example_env_def leaky_env_def failing_env_def)

text \<open>Resolving the example document, for any secret store.\<close>

lemma example_build:
  assumes "load_json env (lit ''config.json'') = Inr example_config"
  shows "build_config_with_secrets env (lit ''config.json'') =
     ([LoadJson (lit ''config.json''), secret_call env (lit ''vw-password'')],
      case secret_text env (lit ''vw-password'') of
        Inl e \<Rightarrow> Inl e
      | Inr t \<Rightarrow> Inr (resolved_config t))"
proof -
  have lits: "\<not> is_secret_ref (PStr (lit ''driver@example.com''))" "\<not> is_secret_ref (PInt 300)"
    "\<not> is_secret_ref (PList [PStr (lit ''SECRET:unused'')])"
    by (simp_all add: is_secret_ref_def startswith_def lit_def)
  have ne: "lit ''username'' \<noteq> lit ''password''"
    by (simp add: lit_def)
  have items: "resolve_items env
      [(lit ''username'', PStr (lit ''driver@example.com'')),
       (lit ''password'', PStr (lit ''SECRET:'' @ lit ''vw-password'')),
       (lit ''interval'', PInt 300),
       (lit ''tags'', PList [PStr (lit ''SECRET:unused'')])]
      [(lit ''username'', PStr (lit ''driver@example.com'')),
       (lit ''password'', PStr (lit ''SECRET:'' @ lit ''vw-password'')),
       (lit ''interval'', PInt 300),
       (lit ''tags'', PList [PStr (lit ''SECRET:unused'')])]
    = ([secret_call env (lit ''vw-password'')],
       case secret_text env (lit ''vw-password'') of
         Inl e \<Rightarrow> Inl e
       | Inr t \<Rightarrow> Inr [(lit ''username'', PStr (lit ''driver@example.com'')),
                       (lit ''password'', PStr t),
                       (lit ''interval'', PInt 300),
                       (lit ''tags'', PList [PStr (lit ''SECRET:unused'')])])"
    by (cases "secret_text env (lit ''vw-password'')")
      (simp_all add: resolve_items_literal [OF lits(1)] resolve_items_literal [OF lits(2)]
        resolve_items_literal [OF lits(3)] resolve_items_ref ne)
  have conn: "resolve_connector env
      (PDict [(lit ''type'', PStr (lit ''volkswagen'')),
              (lit ''config'',
        PDict [(lit ''username'', PStr (lit ''driver@example.com'')),
               (lit ''password'', PStr (lit ''SECRET:'' @ lit ''vw-password'')),
               (lit ''interval'', PInt 300),
               (lit ''tags'', PList [PStr (lit ''SECRET:unused'')])])])
    = ([secret_call env (lit ''vw-password'')],
       case secret_text env (lit ''vw-password'') of
         Inl e \<Rightarrow> Inl e
       | Inr t \<Rightarrow> Inr (PDict [(lit ''type'', PStr (lit ''volkswagen'')),
              (lit ''config'',
        PDict [(lit ''username'', PStr (lit ''driver@example.com'')),
               (lit ''password'', PStr t),
               (lit ''interval'', PInt 300),
               (lit ''tags'', PList [PStr (lit ''SECRET:unused'')])])]))"
    unfolding resolve_connector_settings [OF example_settings] items
    by (cases "secret_text env (lit ''vw-password'')") (simp_all add: py_setitem_def lit_def)
  define cs where "cs = connectors_of example_config"
  have doc: "example_config = PDict [(lit ''carConnectivity'',
       PDict [(lit ''log_level'', PStr (lit ''info'')),
              (lit ''connectors'', PList cs)])]"
    unfolding cs_def example_connectors by (simp add: example_config_def lit_def)
  have m1: "map_of [(lit ''carConnectivity'',
       PDict [(lit ''log_level'', PStr (lit ''info'')),
              (lit ''connectors'', PList cs)])] (lit ''carConnectivity'')
     = Some (PDict [(lit ''log_level'', PStr (lit ''info'')),
              (lit ''connectors'', PList cs)])"
    by simp
  have m2: "map_of [(lit ''log_level'', PStr (lit ''info'')),
              (lit ''connectors'', PList cs)] (lit ''connectors'')
     = Some (PList cs)"
    by (simp add: lit_def)
  have load: "load_json env (lit ''config.json'') = Inr (PDict [(lit ''carConnectivity'',
       PDict [(lit ''log_level'', PStr (lit ''info'')),
              (lit ''connectors'', PList cs)])])"
    using assms doc by simp
  have r: "resolve_connectors env cs =
     ([secret_call env (lit ''vw-password'')],
       case secret_text env (lit ''vw-password'') of
         Inl e \<Rightarrow> Inl e
       | Inr t \<Rightarrow> Inr (connectors_of (resolved_config t)))"
    unfolding cs_def example_connectors resolve_connectors_Cons conn resolved_connectors
    by (cases "secret_text env (lit ''vw-password'')") simp_all
  show ?thesis
    unfolding build_config_standard [OF load m1 m2] r
    by (cases "secret_text env (lit ''vw-password'')")
      (simp_all add: resolved_config_def connectors_of_def lit_def)
qed

subsection \<open>Resolution completeness\<close>

lemma map_fst_resolved: "map fst (map (\<lambda>(key, val). (key, f val)) kvs) = map fst kvs"
  by (induction kvs) auto

lemma map_of_resolved:
  "map_of (map (\<lambda>(key, val). (key, f val)) kvs) key = map_option f (map_of kvs key)"
  by (induction kvs) auto

text \<open>
  C1 (as the code has it). Let resolution of a loaded document return. In every
  connector's settings mapping (a dict has distinct keys) the keys are the same as
  before; every value that was a string \<open>SECRET:<id>\<close> now is the text fetched from
  the secret store for \<open><id>\<close>, decoded as UTF-8 and stripped of surrounding
  whitespace; and a value of the secret-reference form occurs after resolution only as
  such a fetched text, that is, only when the secret itself begins with \<open>SECRET:\<close>.
\<close>

theorem resolution_completeness:
  assumes "load_json env path = Inr config"
    and "build_config_with_secrets env path = (es, Inr config')"
    and "i < length (connectors_of config)"
    and "settings_of (connectors_of config ! i) = Some kvs"
    and "distinct (map fst kvs)"
  shows "\<exists>kvs'. i < length (connectors_of config')
           \<and> settings_of (connectors_of config' ! i) = Some kvs'
           \<and> map fst kvs' = map fst kvs
           \<and> (\<forall>key sid. (key, PStr (lit ''SECRET:'' @ sid)) \<in> set kvs \<longrightarrow>
                 (\<exists>data decoded. access_secret_version env (secret_version_name env sid) = Inr data
                    \<and> utf8_decode data = Inr decoded
                    \<and> map_of kvs' key = Some (PStr (strip decoded))))
           \<and> (\<forall>key v'. (key, v') \<in> set kvs' \<and> is_secret_ref v' \<longrightarrow>
                 (\<exists>sid data decoded. (key, PStr (lit ''SECRET:'' @ sid)) \<in> set kvs
                    \<and> access_secret_version env (secret_version_name env sid) = Inr data
                    \<and> utf8_decode data = Inr decoded
                    \<and> v' = PStr (strip decoded)))"
proof -
  let ?c = "connectors_of config ! i" and ?c' = "connectors_of config' ! i"
  let ?kvs' = "map (\<lambda>(key, val). (key, resolved_value env val)) kvs"
  from build_config_Inr [OF assms(1,2)] have
    la: "list_all2 (\<lambda>c c'. \<exists>es. resolve_connector env c = (es, Inr c'))
           (connectors_of config) (connectors_of config')"
    by blast
  then have len: "i < length (connectors_of config')"
    using assms(3) by (simp add: list_all2_lengthD)
  from la assms(3) obtain es_i where rc: "resolve_connector env ?c = (es_i, Inr ?c')"
    using list_all2_nthD by blast
  have s': "settings_of ?c' = Some ?kvs'"
    using resolve_connector_Inr(4) [OF rc assms(4,5)] .
  have fetched: "\<exists>t. secret_text env sid = Inr t" if "sid \<in> set (secret_ids kvs)" for sid
    using resolve_connector_Inr(2) [OF rc] that settings_items_simps(1) [OF assms(4)] by simp
  have a: "\<exists>data decoded. access_secret_version env (secret_version_name env sid) = Inr data
              \<and> utf8_decode data = Inr decoded
              \<and> map_of ?kvs' key = Some (PStr (strip decoded))"
    if m: "(key, PStr (lit ''SECRET:'' @ sid)) \<in> set kvs" for key sid
  proof -
    from m have "sid \<in> set (secret_ids kvs)"
      using secret_ids_set by blast
    from fetched [OF this] obtain t where t: "secret_text env sid = Inr t" ..
    then obtain data decoded where d: "access_secret_version env (secret_version_name env sid) = Inr data"
        "utf8_decode data = Inr decoded" "t = strip decoded"
      using secret_text_Inr by blast
    from m assms(5) have "map_of kvs key = Some (PStr (lit ''SECRET:'' @ sid))"
      by simp
    then have "map_of ?kvs' key = Some (PStr t)"
      by (simp add: map_of_resolved resolved_value_ref t)
    with d show ?thesis by blast
  qed
  have b: "\<exists>sid data decoded. (key, PStr (lit ''SECRET:'' @ sid)) \<in> set kvs
              \<and> access_secret_version env (secret_version_name env sid) = Inr data
              \<and> utf8_decode data = Inr decoded
              \<and> v' = PStr (strip decoded)"
    if m: "(key, v') \<in> set ?kvs'" and r: "is_secret_ref v'" for key v'
  proof -
    from m obtain v where v: "(key, v) \<in> set kvs" "v' = resolved_value env v"
      by auto
    show ?thesis
    proof (cases "is_secret_ref v")
      case True
      then obtain sid where sid: "v = PStr (lit ''SECRET:'' @ sid)"
        using is_secret_ref_iff by blast
      with v(1) have "sid \<in> set (secret_ids kvs)"
        using secret_ids_set by blast
      from fetched [OF this] obtain t where t: "secret_text env sid = Inr t" ..
      then obtain data decoded where d: "access_secret_version env (secret_version_name env sid) = Inr data"
          "utf8_decode data = Inr decoded" "t = strip decoded"
        using secret_text_Inr by blast
      from v(2) sid t have "v' = PStr t"
        by (simp add: resolved_value_ref)
      with v(1) sid d show ?thesis by blast
    next
      case False
      with v(2) r show ?thesis
        by (simp add: resolved_value_literal)
    qed
  qed
  from len s' a b show ?thesis
    using map_fst_resolved [of "resolved_value env" kvs] by blast
qed

theorem resolution_completeness_witness:
  "build_config_with_secrets example_env (lit ''config.json'')
     = ([LoadJson (lit ''config.json''), secret_call example_env (lit ''vw-password'')],
        Inr (resolved_config (lit ''hunter2'')))
   \<and> map_of (settings_items (connectors_of (resolved_config (lit ''hunter2'')) ! 0)) (lit ''password'')
     = Some (PStr (lit ''hunter2''))"
proof -
  let ?kvs = "[(lit ''username'', PStr (lit ''driver@example.com'')),
               (lit ''password'', PStr (lit ''SECRET:'' @ lit ''vw-password'')),
               (lit ''interval'', PInt 300),
               (lit ''tags'', PList [PStr (lit ''SECRET:unused'')])]"
  have b: "build_config_with_secrets example_env (lit ''config.json'')
     = ([LoadJson (lit ''config.json''), secret_call example_env (lit ''vw-password'')],
        Inr (resolved_config (lit ''hunter2'')))"
    by (simp add: example_build [OF example_load(1)] example_secret_text)
  have i: "0 < length (connectors_of example_config)"
    by (simp add: example_connectors)
  have s: "settings_of (connectors_of example_config ! 0) = Some ?kvs"
    by (simp add: example_connectors example_settings)
  have d: "distinct (map fst ?kvs)"
    by (simp add: lit_def)
  from resolution_completeness [OF example_load(1) b i s d] obtain kvs' where
    k: "settings_of (connectors_of (resolved_config (lit ''hunter2'')) ! 0) = Some kvs'"
    and f: "\<And>key sid. (key, PStr (lit ''SECRET:'' @ sid)) \<in> set ?kvs \<Longrightarrow>
       \<exists>data decoded. access_secret_version example_env (secret_version_name example_env sid) = Inr data
          \<and> utf8_decode data = Inr decoded \<and> map_of kvs' key = Some (PStr (strip decoded))"
    by blast
  have "(lit ''password'', PStr (lit ''SECRET:'' @ lit ''vw-password'')) \<in> set ?kvs"
    by simp
  from f [OF this] obtain data decoded where
    "access_secret_version example_env (secret_version_name example_env (lit ''vw-password'')) = Inr data"
    "utf8_decode data = Inr decoded" "map_of kvs' (lit ''password'') = Some (PStr (strip decoded))"
    by blast
  moreover have "secret_text example_env (lit ''vw-password'') = Inr (lit ''hunter2'')"
    by (rule example_secret_text)
  ultimately have "map_of kvs' (lit ''password'') = Some (PStr (lit ''hunter2''))"
    by (simp add: secret_text_def)
  with k b show ?thesis
    by (simp add: settings_items_def)
qed

text \<open>
  The claim as the specification states it fails where it says that no value keeps the
  secret-reference form: when the secret stored under \<open>vw-password\<close> is the text
  \<open>SECRET:rotated\<close>, resolution returns a document whose password is that text.
\<close>

theorem resolution_completeness_counterexample:
  "build_config_with_secrets leaky_env (lit ''config.json'')
     = ([LoadJson (lit ''config.json''), secret_call leaky_env (lit ''vw-password'')],
        Inr (resolved_config (lit ''SECRET:rotated'')))
   \<and> map_of (settings_items (connectors_of (resolved_config (lit ''SECRET:rotated'')) ! 0))
         (lit ''password'')
     = Some (PStr (lit ''SECRET:rotated''))
   \<and> is_secret_ref (PStr (lit ''SECRET:rotated''))"
proof -
  have "build_config_with_secrets leaky_env (lit ''config.json'')
     = ([LoadJson (lit ''config.json''), secret_call leaky_env (lit ''vw-password'')],
        Inr (resolved_config (lit ''SECRET:rotated'')))"
    by (simp add: example_build [OF example_load(2)] leaky_secret_text)
  moreover have "map_of (settings_items (connectors_of (resolved_config (lit ''SECRET:rotated'')) ! 0))
         (lit ''password'') = Some (PStr (lit ''SECRET:rotated''))"
    by (simp add: resolved_connectors settings_items_def example_settings) (simp add: lit_def)
  moreover have "is_secret_ref (PStr (lit ''SECRET:rotated''))"
    by (simp add: is_secret_ref_def startswith_def lit_def)
  ultimately show ?thesis by blast
qed

subsection \<open>The events of a run\<close>

lemma build_config_event_kinds:
  assumes "ev \<in> set (fst (build_config_with_secrets env path))"
  shows "ev = LoadJson path \<or> is_secret_call ev"
proof (cases "load_json env path")
  case (Inl e)
  with assms show ?thesis
    by (simp add: build_config_load_fails)
next
  case (Inr config)
  from build_config_events [OF Inr assms] show ?thesis
    by (auto simp: secret_call_def is_secret_call_def)
qed

lemma main_try_build_fails:
  assumes "snd (build_config_with_secrets env (lit ''config.json'')) = Inl e"
  shows "main_try env = (fst (build_config_with_secrets env (lit ''config.json'')), Inl e)"
  using assms
  by (cases "build_config_with_secrets env (lit ''config.json'')") (simp add: main_try_def)

lemma main_try_events:
  assumes "ev \<in> set (fst (main_try env))"
  shows "ev \<in> set (fst (build_config_with_secrets env (lit ''config.json'')))
         \<or> (\<exists>s. ev = Print s) \<or> (\<exists>c. ev = Construct c) \<or> ev = FetchAll \<or> ev = GetGarage
         \<or> ev = ListVehicles"
  using assms unfolding main_try_def
  by (auto simp: fst_bind_r split: sum.splits option.splits if_splits)

lemma main_try_event_kinds:
  assumes "ev \<in> set (fst (main_try env))"
  shows "\<not> is_insert ev \<and> ev \<noteq> Now \<and> \<not> is_print_json ev"
  using main_try_events [OF assms] build_config_event_kinds [of ev env "lit ''config.json''"]
  by (auto simp: is_insert_def is_print_json_def is_secret_call_def split: event.splits)


lemma insert_events:
  assumes "rows \<noteq> []"
  shows "filter is_insert (fst (insert_into_bigquery env rows)) = [InsertRowsJson (table_id env) rows]"
  using assms
  by (cases "insert_rows_json env (table_id env) rows")
    (simp_all add: insert_into_bigquery_def is_insert_def)

lemma insert_events_empty: "filter is_insert (fst (insert_into_bigquery env [])) = []"
  by (simp add: insert_into_bigquery_def is_insert_def)

lemma insert_events_no_now: "Now \<notin> set (fst (insert_into_bigquery env rows))"
  by (cases "insert_rows_json env (table_id env) rows")
    (simp_all add: insert_into_bigquery_def)

lemma main_no_init:
  assumes "main_try env = (es, r)" and "\<And>vehicles. r \<noteq> Inr (Some vehicles)"
  shows "fst (main event context env) = es \<or> (\<exists>j. fst (main event context env) = es @ [PrintJson j])"
  using assms by (auto simp: main_def split: sum.splits option.splits)

lemma filter_insert_init:
  assumes "main_try env = (es, r)"
  shows "filter is_insert es = []" and "filter (\<lambda>ev. ev = Now) es = []"
  using main_try_event_kinds [of _ env] assms by (auto simp: filter_empty_conv)

text \<open>
  C8. Timestamp uniformity: the clock is read at most once in a run, and every row of
  every batch the run submits to the store carries the ISO format of that one reading
  as its \<open>ingestion_timestamp\<close>.
\<close>

theorem timestamp_uniformity:
  "(\<forall>table rows row.
      InsertRowsJson table rows \<in> set (fst (main event context env)) \<and> row \<in> set rows \<longrightarrow>
      row_field ''ingestion_timestamp'' row = Some (PStr (isoformat (utc_now env))))
   \<and> length (filter (\<lambda>ev. ev = Now) (fst (main event context env))) \<le> 1"
proof -
  obtain es r where m: "main_try env = (es, r)" by (cases "main_try env")
  note init = filter_insert_init [OF m]
  show ?thesis
  proof (cases "\<exists>vehicles. r = Inr (Some vehicles)")
    case False
    then have "fst (main event context env) = es \<or> (\<exists>j. fst (main event context env) = es @ [PrintJson j])"
      using main_no_init [OF m] by blast
    then have "filter is_insert (fst (main event context env)) = []"
      and "filter (\<lambda>ev. ev = Now) (fst (main event context env)) = []"
      using init by (auto simp: is_insert_def)
    then show ?thesis
      by (auto simp: filter_empty_conv is_insert_def)
  next
    case True
    then obtain vehicles where r: "r = Inr (Some vehicles)" ..
    note after = main_after_init [OF m [unfolded r]]
    show ?thesis
    proof (cases "build_rows (utc_now env) vehicles []")
      case (Inl e)
      with after have "fst (main event context env) = es @ [Now]" by simp
      then show ?thesis
        using init by (auto simp: filter_empty_conv is_insert_def)
    next
      case (Inr built)
      with after have ev: "fst (main event context env) = es @ Now # fst (insert_into_bigquery env built)"
        by simp
      have one: "length (filter (\<lambda>ev. ev = Now) (fst (main event context env))) \<le> 1"
        unfolding ev using init(2) insert_events_no_now [of env built]
        by (auto simp: filter_empty_conv)
      have stamp: "row_field ''ingestion_timestamp'' row = Some (PStr (isoformat (utc_now env)))"
        if "InsertRowsJson table rows \<in> set (fst (main event context env))" and "row \<in> set rows"
        for table rows row
      proof -
        from that(1) init(1) have "InsertRowsJson table rows \<in> set (fst (insert_into_bigquery env built))"
          unfolding ev by (auto simp: filter_empty_conv is_insert_def)
        then have "InsertRowsJson table rows \<in> set (filter is_insert (fst (insert_into_bigquery env built)))"
          by (simp add: is_insert_def)
        then have "rows = built"
          using insert_events [of built env] insert_events_empty [of env]
          by (cases "built = []") auto
        with Inr that(2) obtain v where "build_row (utc_now env) v = Inr row"
          unfolding build_rows_Inr by (auto simp: list_all2_conv_all_nth in_set_conv_nth)
        then show ?thesis by (rule build_row_timestamp)
      qed
      from one stamp show ?thesis by blast
    qed
  qed
qed

subsection \<open>The rows of a run\<close>

lemma build_rows_required:
  assumes "\<forall>v \<in> set vs. required_present v"
  shows "build_rows t vs acc = Inr (acc @ map (\<lambda>v. projr (build_row t v)) vs)"
  using assms
proof (induction vs arbitrary: acc)
  case Nil
  show ?case by simp
next
  case (Cons v vs)
  then have "required_present v" by simp
  then obtain row where row: "build_row t v = Inr row"
    using required_build_row by blast
  from Cons have "build_rows t vs (acc @ [row]) = Inr ((acc @ [row]) @ map (\<lambda>v. projr (build_row t v)) vs)"
    by simp
  then show ?case
    by (simp add: row)
qed

lemma example_main_try:
  assumes "load_json env (lit ''config.json'') = Inr example_config"
    and "secret_text env (lit ''vw-password'') = Inr t"
    and "CarConnectivity env (resolved_config t) = Inr (example_client vehicles)"
    and "vehicles \<noteq> []"
  shows "main_try env =
     ([LoadJson (lit ''config.json''), secret_call env (lit ''vw-password''),
       Print (lit ''Initializing CarConnectivity with dynamic config...''),
       Construct (resolved_config t), FetchAll, GetGarage, ListVehicles,
       Print (lit ''Found '' @ str_of_nat (length vehicles)
                @ lit '' vehicle VIN(s). Fetching full data for each.'')],
      Inr (Some vehicles))"
  using assms(4)
  by (simp add: main_try_def example_build [OF assms(1)] assms(2,3) example_client_def)

lemma example_isoformat: "isoformat example_time = lit ''2024-05-17T06:30:00+00:00''"
  by code_simp

lemma example_table: "table_id example_env = lit ''demo.car_data.vehicle_status''"
  by (simp add: table_id_def example_env_def format_project_def BIGQUERY_DATASET_def
      BIGQUERY_TABLE_def lit_def)

lemma example_env_main_try:
  "main_try example_env =
     ([LoadJson (lit ''config.json''), secret_call example_env (lit ''vw-password''),
       Print (lit ''Initializing CarConnectivity with dynamic config...''),
       Construct (resolved_config (lit ''hunter2'')), FetchAll, GetGarage, ListVehicles,
       Print (lit ''Found '' @ str_of_nat (length [electric_vehicle, plain_vehicle])
                @ lit '' vehicle VIN(s). Fetching full data for each.'')],
      Inr (Some [electric_vehicle, plain_vehicle]))"
  by (rule example_main_try [OF example_load(1) example_secret_text])
    (simp_all add: example_env_def)



lemma required_present_sub_objects: "required_present v \<Longrightarrow> sub_objects_present v"
  by (auto simp: required_present_def sub_objects_present_def has_member_def
      split: option.splits)


theorem timestamp_uniformity_witness:
  "InsertRowsJson (lit ''demo.car_data.vehicle_status'')
      [projr (build_row example_time electric_vehicle),
       projr (build_row example_time plain_vehicle)] \<in> set (fst (main PNone PNone example_env))
   \<and> row_field ''ingestion_timestamp'' (projr (build_row example_time electric_vehicle))
       = Some (PStr (lit ''2024-05-17T06:30:00+00:00''))
   \<and> row_field ''ingestion_timestamp'' (projr (build_row example_time plain_vehicle))
       = Some (PStr (lit ''2024-05-17T06:30:00+00:00''))"
proof -
  let ?rows = "[projr (build_row example_time electric_vehicle),
                projr (build_row example_time plain_vehicle)]"
  have b: "build_rows (utc_now example_env) [electric_vehicle, plain_vehicle] [] = Inr ?rows"
    using build_rows_required [of "[electric_vehicle, plain_vehicle]" example_time "[]"]
      required_electric_vehicle required_plain_vehicle
    by (simp add: example_env_def)
  have "fst (main PNone PNone example_env)
      = fst (main_try example_env) @ Now # fst (insert_into_bigquery example_env ?rows)"
    using main_after_init [OF example_env_main_try] b by (simp add: example_env_main_try)
  moreover have "InsertRowsJson (lit ''demo.car_data.vehicle_status'') ?rows
      \<in> set (fst (insert_into_bigquery example_env ?rows))"
    by (simp add: insert_into_bigquery_def example_table) (simp add: example_env_def)
  ultimately have i: "InsertRowsJson (lit ''demo.car_data.vehicle_status'') ?rows
      \<in> set (fst (main PNone PNone example_env))"
    by simp
  have t: "isoformat (utc_now example_env) = lit ''2024-05-17T06:30:00+00:00''"
    using example_isoformat by (simp add: example_env_def)
  have u: "row_field ''ingestion_timestamp'' row = Some (PStr (isoformat (utc_now example_env)))"
    if "InsertRowsJson table rows \<in> set (fst (main PNone PNone example_env))" and "row \<in> set rows"
    for table rows row
    using timestamp_uniformity [of PNone PNone example_env] that by blast
  have "row_field ''ingestion_timestamp'' (projr (build_row example_time electric_vehicle))
          = Some (PStr (lit ''2024-05-17T06:30:00+00:00''))"
    using u [OF i] unfolding t by simp
  moreover have "row_field ''ingestion_timestamp'' (projr (build_row example_time plain_vehicle))
          = Some (PStr (lit ''2024-05-17T06:30:00+00:00''))"
    using u [OF i] unfolding t by simp
  ultimately show ?thesis
    using i by blast
qed

text \<open>
  C5. Atomic abort. When the initialization ends with the vehicle list and some vehicle
  lacks what its row requires, the run ends with an exception raised from the loop, right
  after the clock was read: nothing is printed for it, and no insert call is made, so
  the rows built from earlier vehicles are never submitted.
\<close>

theorem atomic_abort:
  assumes "main_try env = (es, Inr (Some vehicles))"
    and "v \<in> set vehicles"
    and "\<not> required_present v"
  shows "(\<exists>e. main event context env = (es @ [Now], Inl e))
         \<and> filter is_insert (fst (main event context env)) = []"
proof -
  from build_rows_raises [OF assms(2,3)] obtain e where
    "build_rows (utc_now env) vehicles [] = Inl e"
    by blast
  then have "main event context env = (es @ [Now], Inl e)"
    using main_after_init [OF assms(1)] by simp
  then show ?thesis
    using filter_insert_init(1) [OF assms(1)] by (simp add: is_insert_def)
qed

theorem atomic_abort_witness:
  "snd (main PNone PNone broken_env)
     = Inl (AttributeError (quoted (lit ''NoneType'') @ lit '' object has no attribute ''
              @ quoted (lit ''value'')))
   \<and> filter is_insert (fst (main PNone PNone broken_env)) = []"
proof -
  have l: "load_json broken_env (lit ''config.json'') = Inr example_config"
    by (simp add: broken_env_def example_env_def)
  have s: "secret_text broken_env (lit ''vw-password'') = Inr (lit ''hunter2'')"
    using example_secret_text by (simp add: secret_text_def secret_version_name_def broken_env_def)
  have m: "main_try broken_env =
     ([LoadJson (lit ''config.json''), secret_call broken_env (lit ''vw-password''),
       Print (lit ''Initializing CarConnectivity with dynamic config...''),
       Construct (resolved_config (lit ''hunter2'')), FetchAll, GetGarage, ListVehicles,
       Print (lit ''Found '' @ str_of_nat (length [electric_vehicle, broken_vehicle])
                @ lit '' vehicle VIN(s). Fetching full data for each.'')],
      Inr (Some [electric_vehicle, broken_vehicle]))"
    by (rule example_main_try [OF l s]) (simp_all add: broken_env_def)
  have "broken_vehicle \<in> set [electric_vehicle, broken_vehicle]" by simp
  moreover have "\<not> required_present broken_vehicle"
    by (simp add: required_present_def broken_vehicle_def)
  ultimately obtain e where e: "main PNone PNone broken_env = (fst (main_try broken_env) @ [Now], Inl e)"
    and f: "filter is_insert (fst (main PNone PNone broken_env)) = []"
    using atomic_abort [OF m, of broken_vehicle PNone PNone] unfolding m by auto
  obtain row where row: "build_row (utc_now broken_env) electric_vehicle = Inr row"
    using required_build_row [OF required_electric_vehicle] by blast
  have "build_row (utc_now broken_env) broken_vehicle
      = Inl (AttributeError (quoted (lit ''NoneType'') @ lit '' object has no attribute ''
              @ quoted (lit ''value'')))"
    by (simp add: build_row_def broken_vehicle_def electric_vehicle_def attr_of_def deref_def)
  then have "build_rows (utc_now broken_env) [electric_vehicle, broken_vehicle] []
      = Inl (AttributeError (quoted (lit ''NoneType'') @ lit '' object has no attribute ''
              @ quoted (lit ''value'')))"
    by (simp add: row)
  then have "snd (main PNone PNone broken_env)
      = Inl (AttributeError (quoted (lit ''NoneType'') @ lit '' object has no attribute ''
              @ quoted (lit ''value'')))"
    using main_after_init [OF m] by simp
  with f show ?thesis by simp
qed

subsection \<open>The best-effort write\<close>

text \<open>
  C4. Best-effort write never raises. When the store answers a non-empty batch with a
  non-empty list of row errors, \<open>_insert_into_bigquery\<close> makes the one insert call,
  prints one JSON record that holds the severity, the message and the list of row
  errors, and returns without raising; and a run that built this batch ends, after its
  initialization, with the clock read, that insert call and that record, and returns
  without raising, however many rows the errors cover.
\<close>

theorem best_effort_write:
  assumes "rows \<noteq> []"
    and "insert_rows_json env (table_id env) rows = Inr errors"
    and "errors \<noteq> []"
  shows "insert_into_bigquery env rows =
           ([InsertRowsJson (table_id env) rows,
             PrintJson (PDict [(lit ''severity'', PStr (lit ''ERROR'')),
                               (lit ''message'', PStr (lit ''BigQuery insert errors'')),
                               (lit ''errors'', PList errors)])],
            Inr ())
         \<and> (\<forall>es vehicles.
               main_try env = (es, Inr (Some vehicles))
               \<and> build_rows (utc_now env) vehicles [] = Inr rows
               \<longrightarrow> main event context env =
                     (es @ [Now, InsertRowsJson (table_id env) rows,
                            PrintJson (PDict [(lit ''severity'', PStr (lit ''ERROR'')),
                                              (lit ''message'', PStr (lit ''BigQuery insert errors'')),
                                              (lit ''errors'', PList errors)])],
                      Inr ()))"
proof -
  have w: "insert_into_bigquery env rows =
           ([InsertRowsJson (table_id env) rows,
             PrintJson (PDict [(lit ''severity'', PStr (lit ''ERROR'')),
                               (lit ''message'', PStr (lit ''BigQuery insert errors'')),
                               (lit ''errors'', PList errors)])],
            Inr ())"
    using assms by (simp add: insert_into_bigquery_def insert_error_record_def)
  have "main event context env =
           (es @ [Now, InsertRowsJson (table_id env) rows,
                  PrintJson (PDict [(lit ''severity'', PStr (lit ''ERROR'')),
                                    (lit ''message'', PStr (lit ''BigQuery insert errors'')),
                                    (lit ''errors'', PList errors)])],
            Inr ())"
    if "main_try env = (es, Inr (Some vehicles))"
      and "build_rows (utc_now env) vehicles [] = Inr rows" for es vehicles
    using main_after_init [OF that(1)] that(2) w by simp
  with w show ?thesis by blast
qed

theorem best_effort_write_witness:
  "insert_into_bigquery rejecting_env five_rows =
     ([InsertRowsJson (lit ''demo.car_data.vehicle_status'') five_rows,
       PrintJson (PDict [(lit ''severity'', PStr (lit ''ERROR'')),
                         (lit ''message'', PStr (lit ''BigQuery insert errors'')),
                         (lit ''errors'', PList row_errors)])],
      Inr ())
   \<and> main PNone PNone rejecting_env =
     ([LoadJson (lit ''config.json''), secret_call rejecting_env (lit ''vw-password''),
       Print (lit ''Initializing CarConnectivity with dynamic config...''),
       Construct (resolved_config (lit ''hunter2'')), FetchAll, GetGarage, ListVehicles,
       Print (lit ''Found '' @ str_of_nat (length five_vehicles)
                @ lit '' vehicle VIN(s). Fetching full data for each.''),
       Now,
       InsertRowsJson (lit ''demo.car_data.vehicle_status'') five_rows,
       PrintJson (PDict [(lit ''severity'', PStr (lit ''ERROR'')),
                         (lit ''message'', PStr (lit ''BigQuery insert errors'')),
                         (lit ''errors'', PList row_errors)])],
      Inr ())
   \<and> length five_rows = 5 \<and> length row_errors = 2"
proof -
  have t: "table_id rejecting_env = lit ''demo.car_data.vehicle_status''"
    by (simp add: table_id_def rejecting_env_def example_env_def format_project_def
        BIGQUERY_DATASET_def BIGQUERY_TABLE_def lit_def)
  have l: "load_json rejecting_env (lit ''config.json'') = Inr example_config"
    by (simp add: rejecting_env_def example_env_def)
  have s: "secret_text rejecting_env (lit ''vw-password'') = Inr (lit ''hunter2'')"
    using example_secret_text
    by (simp add: secret_text_def secret_version_name_def rejecting_env_def)
  have ne: "five_vehicles \<noteq> []"
    by (simp add: five_vehicles_def)
  have c: "CarConnectivity rejecting_env (resolved_config (lit ''hunter2''))
      = Inr (example_client five_vehicles)"
    by (simp add: rejecting_env_def)
  have m: "main_try rejecting_env =
     ([LoadJson (lit ''config.json''), secret_call rejecting_env (lit ''vw-password''),
       Print (lit ''Initializing CarConnectivity with dynamic config...''),
       Construct (resolved_config (lit ''hunter2'')), FetchAll, GetGarage, ListVehicles,
       Print (lit ''Found '' @ str_of_nat (length five_vehicles)
                @ lit '' vehicle VIN(s). Fetching full data for each.'')],
      Inr (Some five_vehicles))"
    by (rule example_main_try [OF l s c ne])
  have "\<forall>v \<in> set five_vehicles. required_present v"
    using required_electric_vehicle required_plain_vehicle by (simp add: five_vehicles_def)
  from build_rows_required [OF this, of example_time "[]"]
  have b: "build_rows (utc_now rejecting_env) five_vehicles [] = Inr five_rows"
    by (simp add: five_rows_def rejecting_env_def example_env_def)
  have r: "five_rows \<noteq> []" "length five_rows = 5"
    by (simp_all add: five_rows_def five_vehicles_def)
  have e: "row_errors \<noteq> []" "length row_errors = 2"
    by (simp_all add: row_errors_def)
  have i: "insert_rows_json rejecting_env (table_id rejecting_env) five_rows = Inr row_errors"
    by (simp add: rejecting_env_def)
  from best_effort_write [OF r(1) i e(1), of PNone PNone] m b
  have "insert_into_bigquery rejecting_env five_rows =
     ([InsertRowsJson (table_id rejecting_env) five_rows,
       PrintJson (PDict [(lit ''severity'', PStr (lit ''ERROR'')),
                         (lit ''message'', PStr (lit ''BigQuery insert errors'')),
                         (lit ''errors'', PList row_errors)])],
      Inr ())"
    and "main PNone PNone rejecting_env =
     (fst (main_try rejecting_env)
        @ [Now, InsertRowsJson (table_id rejecting_env) five_rows,
           PrintJson (PDict [(lit ''severity'', PStr (lit ''ERROR'')),
                             (lit ''message'', PStr (lit ''BigQuery insert errors'')),
                             (lit ''errors'', PList row_errors)])],
      Inr ())"
    by (blast, simp add: m)
  then show ?thesis
    unfolding t using r(2) e(2) by (simp add: m)
qed

subsection \<open>Failures of the resolution and of the initialization\<close>

text \<open>
  C3. Resolution fails closed. When a string value of some connector's settings mapping
  is a secret reference and the secret store fails for its identifier, resolution ends
  with an exception and returns no document; and a run on that document ends with an
  exception without ever constructing the connectivity client.
\<close>

theorem resolution_fails_closed:
  assumes "load_json env path = Inr config"
    and "c \<in> set (connectors_of config)"
    and "settings_of c = Some kvs"
    and "(key, PStr (lit ''SECRET:'' @ sid)) \<in> set kvs"
    and "access_secret_version env (secret_version_name env sid) = Inl e"
  shows "(\<exists>e'. snd (build_config_with_secrets env path) = Inl e')
         \<and> (path = lit ''config.json'' \<longrightarrow>
               (\<exists>e'. snd (main event context env) = Inl e')
               \<and> filter is_construct (fst (main event context env)) = [])"
proof -
  from assms(2) have "connectors_of config \<noteq> []" by auto
  from connectors_of_nonempty [OF this] obtain doc cc where
    s: "config = PDict doc" "map_of doc (lit ''carConnectivity'') = Some (PDict cc)"
      "map_of cc (lit ''connectors'') = Some (PList (connectors_of config))"
    by blast
  have "sid \<in> set (secret_ids kvs)"
    using assms(4) secret_ids_set by blast
  from resolve_connector_raises [OF assms(3) this secret_text_store_fails [OF assms(5)]]
  obtain e1 where "snd (resolve_connector env c) = Inl e1" ..
  from resolve_connectors_raises [OF assms(2) this] obtain e2 where
    "snd (resolve_connectors env (connectors_of config)) = Inl e2" ..
  then have b: "snd (build_config_with_secrets env path) = Inl e2"
    unfolding build_config_standard [OF assms(1) [unfolded s(1)] s(2,3)] by simp
  have "(\<exists>e'. snd (main event context env) = Inl e')
        \<and> filter is_construct (fst (main event context env)) = []"
    if p: "path = lit ''config.json''"
  proof -
    note t = main_try_build_fails [OF b [unfolded p]]
    have "\<not> is_construct ev" if "ev \<in> set (fst (build_config_with_secrets env (lit ''config.json'')))" for ev
      using build_config_event_kinds [OF that]
      by (auto simp: is_construct_def is_secret_call_def split: event.splits)
    then have "filter is_construct (fst (build_config_with_secrets env (lit ''config.json''))) = []"
      by (simp add: filter_empty_conv)
    then show ?thesis
      by (simp add: main_def t is_construct_def)
  qed
  with b show ?thesis by blast
qed

theorem resolution_fails_closed_witness:
  "snd (build_config_with_secrets failing_env (lit ''config.json'')) = Inl not_found
   \<and> snd (main PNone PNone failing_env) = Inl not_found
   \<and> filter is_construct (fst (main PNone PNone failing_env)) = []"
proof -
  let ?kvs = "[(lit ''username'', PStr (lit ''driver@example.com'')),
               (lit ''password'', PStr (lit ''SECRET:'' @ lit ''vw-password'')),
               (lit ''interval'', PInt 300),
               (lit ''tags'', PList [PStr (lit ''SECRET:unused'')])]"
  let ?c = "PDict [(lit ''type'', PStr (lit ''volkswagen'')), (lit ''config'', PDict ?kvs)]"
  have c: "?c \<in> set (connectors_of example_config)"
    by (simp add: example_connectors)
  have k: "(lit ''password'', PStr (lit ''SECRET:'' @ lit ''vw-password'')) \<in> set ?kvs"
    by simp
  have a: "access_secret_version failing_env (secret_version_name failing_env (lit ''vw-password''))
      = Inl not_found"
    by (simp add: failing_env_def)
  have b: "build_config_with_secrets failing_env (lit ''config.json'')
      = ([LoadJson (lit ''config.json''), secret_call failing_env (lit ''vw-password'')], Inl not_found)"
    by (simp add: example_build [OF example_load(3)] failing_secret_text)
  from resolution_fails_closed [OF example_load(3) c example_settings k a, of PNone PNone]
  have "filter is_construct (fst (main PNone PNone failing_env)) = []"
    by simp
  moreover have "snd (main PNone PNone failing_env) = Inl not_found"
    using main_try_build_fails [of failing_env not_found] b by (simp add: main_def)
  ultimately show ?thesis
    using b by simp
qed

text \<open>
  C9. Resolution scans one level only. Every call the resolver makes to the secret store
  is the call for a secret reference that is an immediate string value of some
  connector's settings mapping (\<open>secret_ids\<close> lists only those); when resolution
  returns, the calls made are exactly these, in order, and every settings value that is
  not a string, whatever it holds inside, is in the returned document as it was loaded.
\<close>

theorem resolution_one_level:
  assumes "load_json env path = Inr config"
  shows "(\<forall>ev \<in> set (fst (build_config_with_secrets env path)).
            ev = LoadJson path
            \<or> (\<exists>c \<in> set (connectors_of config). \<exists>sid \<in> set (secret_ids (settings_items c)).
                  ev = AccessSecretVersion (secret_version_name env sid)))
         \<and> (\<forall>es config'. build_config_with_secrets env path = (es, Inr config') \<longrightarrow>
               es = LoadJson path
                      # map (\<lambda>sid. AccessSecretVersion (secret_version_name env sid))
                          (concat (map (\<lambda>c. secret_ids (settings_items c)) (connectors_of config)))
               \<and> (\<forall>i kvs key val.
                     i < length (connectors_of config)
                     \<and> settings_of (connectors_of config ! i) = Some kvs
                     \<and> distinct (map fst kvs)
                     \<and> (key, val) \<in> set kvs \<and> (\<forall>s. val \<noteq> PStr s)
                     \<longrightarrow> map_of (settings_items (connectors_of config' ! i)) key = Some val))"
proof (intro conjI ballI allI impI)
  fix ev
  assume "ev \<in> set (fst (build_config_with_secrets env path))"
  from build_config_events [OF assms this]
  show "ev = LoadJson path
        \<or> (\<exists>c \<in> set (connectors_of config). \<exists>sid \<in> set (secret_ids (settings_items c)).
              ev = AccessSecretVersion (secret_version_name env sid))"
    by (simp add: secret_call_def)
next
  fix es config'
  assume "build_config_with_secrets env path = (es, Inr config')"
  from build_config_Inr [OF assms this]
  show "es = LoadJson path
               # map (\<lambda>sid. AccessSecretVersion (secret_version_name env sid))
                   (concat (map (\<lambda>c. secret_ids (settings_items c)) (connectors_of config)))"
    by (simp add: secret_call_def [abs_def])
next
  fix es config' i kvs key val
  assume b: "build_config_with_secrets env path = (es, Inr config')"
    and h: "i < length (connectors_of config)
            \<and> settings_of (connectors_of config ! i) = Some kvs
            \<and> distinct (map fst kvs)
            \<and> (key, val) \<in> set kvs \<and> (\<forall>s. val \<noteq> PStr s)"
  from build_config_Inr [OF assms b] h obtain es_i where
    rc: "resolve_connector env (connectors_of config ! i) = (es_i, Inr (connectors_of config' ! i))"
    using list_all2_nthD by blast
  from h have s: "settings_of (connectors_of config ! i) = Some kvs" and d: "distinct (map fst kvs)"
    by simp_all
  have "settings_of (connectors_of config' ! i)
      = Some (map (\<lambda>(key, val). (key, resolved_value env val)) kvs)"
    using resolve_connector_Inr(4) [OF rc s d] .
  moreover from h have "map_of kvs key = Some val"
    by simp
  moreover from h have "\<not> is_secret_ref val"
    using is_secret_ref_iff by blast
  ultimately show "map_of (settings_items (connectors_of config' ! i)) key = Some val"
    by (simp add: settings_items_def map_of_resolved resolved_value_literal)
qed

theorem resolution_one_level_witness:
  "fst (build_config_with_secrets example_env (lit ''config.json''))
     = [LoadJson (lit ''config.json''),
        AccessSecretVersion (lit ''projects/demo/secrets/vw-password/versions/latest'')]
   \<and> map_of (settings_items (connectors_of (resolved_config (lit ''hunter2'')) ! 0)) (lit ''tags'')
       = Some (PList [PStr (lit ''SECRET:unused'')])
   \<and> map_of (settings_items (connectors_of (resolved_config (lit ''hunter2'')) ! 0)) (lit ''interval'')
       = Some (PInt 300)"
proof -
  let ?kvs = "[(lit ''username'', PStr (lit ''driver@example.com'')),
               (lit ''password'', PStr (lit ''SECRET:'' @ lit ''vw-password'')),
               (lit ''interval'', PInt 300),
               (lit ''tags'', PList [PStr (lit ''SECRET:unused'')])]"
  have b: "build_config_with_secrets example_env (lit ''config.json'')
     = ([LoadJson (lit ''config.json''), secret_call example_env (lit ''vw-password'')],
        Inr (resolved_config (lit ''hunter2'')))"
    by (simp add: example_build [OF example_load(1)] example_secret_text)
  note t = resolution_one_level [OF example_load(1)]
  have i: "0 < length (connectors_of example_config)"
    by (simp add: example_connectors)
  have s: "settings_of (connectors_of example_config ! 0) = Some ?kvs"
    by (simp add: example_connectors example_settings)
  have d: "distinct (map fst ?kvs)"
    by (simp add: lit_def)
  have u: "map_of (settings_items (connectors_of (resolved_config (lit ''hunter2'')) ! 0)) key = Some val"
    if "(key, val) \<in> set ?kvs" and "\<forall>s. val \<noteq> PStr s" for key val
    using t b i s d that by blast
  have "map_of (settings_items (connectors_of (resolved_config (lit ''hunter2'')) ! 0)) (lit ''tags'')
       = Some (PList [PStr (lit ''SECRET:unused'')])"
    by (rule u) simp_all
  moreover have "map_of (settings_items (connectors_of (resolved_config (lit ''hunter2'')) ! 0)) (lit ''interval'')
       = Some (PInt 300)"
    by (rule u) simp_all
  moreover have "PROJECT_ID example_env = Some (lit ''demo'')"
    by (simp add: example_env_def)
  ultimately show ?thesis
    using b by (simp add: secret_call_def example_secret_name)
qed

text \<open>
  The \<open>try\<close> block ends with the exception \<open>e\<close> exactly when one of its stages raised
  \<open>e\<close>: the resolution of the configuration (loading the document, fetching a secret),
  the construction of the client, fetch-all, the retrieval of the garage, or the listing
  of the vehicles.
\<close>

lemma initialization_failures:
  "snd (main_try env) = Inl e \<longleftrightarrow>
     (snd (build_config_with_secrets env (lit ''config.json'')) = Inl e
      \<or> (\<exists>config. snd (build_config_with_secrets env (lit ''config.json'')) = Inr config
            \<and> (CarConnectivity env config = Inl e
                \<or> (\<exists>cc. CarConnectivity env config = Inr cc
                      \<and> (fetch_all cc = Inl e
                          \<or> (fetch_all cc = Inr ()
                              \<and> (get_garage cc = Inl e
                                  \<or> (\<exists>g. get_garage cc = Inr (Some g)
                                        \<and> list_vehicles g = Inl e))))))))"
  unfolding main_try_def
  by (auto simp: snd_bind_r split: sum.splits option.splits if_splits)

text \<open>
  C10 (as the code has it). When the \<open>try\<close> block of \<open>main\<close> ends with an exception
  that derives from \<open>Exception\<close>, the run prints one JSON record after everything
  printed before (severity, the message, the name of the exception's class, its text)
  and ends with the same exception; nothing before it was a JSON record. An exception
  that does not derive from \<open>Exception\<close> ends the run as it is, and no record is
  printed.
\<close>

theorem initialization_errors:
  assumes "main_try env = (es, Inl e)"
  shows "(derives_Exception e \<longrightarrow>
            main event context env =
              (es @ [PrintJson (PDict
                 [(lit ''severity'', PStr (lit ''ERROR'')),
                  (lit ''message'', PStr (lit ''Failed during initialization or data fetch'')),
                  (lit ''exception_type'', PStr (exn_type e)),
                  (lit ''error'', PStr (exn_text e))])],
               Inl e))
         \<and> (\<not> derives_Exception e \<longrightarrow> main event context env = (es, Inl e))
         \<and> filter is_print_json es = []"
proof -
  have "\<not> is_print_json ev" if "ev \<in> set es" for ev
    using main_try_event_kinds [of ev env] that assms by simp
  then have "filter is_print_json es = []"
    by (simp add: filter_empty_conv)
  then show ?thesis
    using assms by (simp add: main_def init_error_record_def)
qed

theorem initialization_errors_witness:
  "main PNone PNone failing_env =
     ([LoadJson (lit ''config.json''), secret_call failing_env (lit ''vw-password''),
       PrintJson (PDict
         [(lit ''severity'', PStr (lit ''ERROR'')),
          (lit ''message'', PStr (lit ''Failed during initialization or data fetch'')),
          (lit ''exception_type'', PStr (lit ''NotFound'')),
          (lit ''error'', PStr (lit ''404 Secret not found''))])],
      Inl not_found)"
proof -
  have b: "build_config_with_secrets failing_env (lit ''config.json'')
      = ([LoadJson (lit ''config.json''), secret_call failing_env (lit ''vw-password'')], Inl not_found)"
    by (simp add: example_build [OF example_load(3)] failing_secret_text)
  have m: "main_try failing_env
      = ([LoadJson (lit ''config.json''), secret_call failing_env (lit ''vw-password'')], Inl not_found)"
    using main_try_build_fails [of failing_env not_found] b by simp
  from initialization_errors [OF m, of PNone PNone] show ?thesis
    by (simp add: not_found_def)
qed

text \<open>
  The claim as stated fails for an exception that is not an \<open>Exception\<close>: when
  fetch-all is interrupted from the keyboard, the run ends with the interrupt and prints
  no record.
\<close>

theorem initialization_errors_counterexample:
  "fetch_all (projr (CarConnectivity interrupted_env (resolved_config (lit ''hunter2''))))
     = Inl keyboard_interrupt
   \<and> main PNone PNone interrupted_env =
     ([LoadJson (lit ''config.json''), secret_call interrupted_env (lit ''vw-password''),
       Print (lit ''Initializing CarConnectivity with dynamic config...''),
       Construct (resolved_config (lit ''hunter2'')), FetchAll],
      Inl keyboard_interrupt)
   \<and> filter is_print_json (fst (main PNone PNone interrupted_env)) = []"
proof -
  have l: "load_json interrupted_env (lit ''config.json'') = Inr example_config"
    by (simp add: interrupted_env_def example_env_def)
  have s: "secret_text interrupted_env (lit ''vw-password'') = Inr (lit ''hunter2'')"
    using example_secret_text
    by (simp add: secret_text_def secret_version_name_def interrupted_env_def)
  have c: "CarConnectivity interrupted_env (resolved_config (lit ''hunter2''))
      = Inr (Client (Inl keyboard_interrupt) (Inr None))"
    by (simp add: interrupted_env_def)
  have m: "main_try interrupted_env =
     ([LoadJson (lit ''config.json''), secret_call interrupted_env (lit ''vw-password''),
       Print (lit ''Initializing CarConnectivity with dynamic config...''),
       Construct (resolved_config (lit ''hunter2'')), FetchAll],
      Inl keyboard_interrupt)"
    by (simp add: main_try_def example_build [OF l] s c)
  then have "main PNone PNone interrupted_env =
     ([LoadJson (lit ''config.json''), secret_call interrupted_env (lit ''vw-password''),
       Print (lit ''Initializing CarConnectivity with dynamic config...''),
       Construct (resolved_config (lit ''hunter2'')), FetchAll],
      Inl keyboard_interrupt)"
    by (simp add: main_def keyboard_interrupt_def)
  then show ?thesis
    using c by (simp add: is_print_json_def secret_call_def)
qed

end
